theory Spec2Isabelle
  imports Main "HOL-Library.AList"
begin

section \<open>Python values and exceptions\<close>

text \<open>
  The values that travel through the pipe and through pickle are opaque to the code under
  study. They are modelled by a small universe of Python values; a tuple is a list of values.
\<close>

datatype pyobj = PyNone | PyBool bool | PyInt int | PyStr string | PyTuple "pyobj list"

datatype exn = SystemExit | IndexError | KeyError | TypeError | AttributeError | BrokenPipeError

fun truthy_val :: "pyobj \<Rightarrow> bool" where
  "truthy_val PyNone = False"
| "truthy_val (PyBool b) = b"
| "truthy_val (PyInt i) = (i \<noteq> 0)"
| "truthy_val (PyStr s) = (s \<noteq> [])"
| "truthy_val (PyTuple xs) = (xs \<noteq> [])"

section \<open>The acquisition controller (linien_server/acquisition/controller.py)\<close>

subsection \<open>Commands\<close>

text \<open>The members of the enum \<open>AcquisitionProcessSignals\<close>, spelled as in the source.\<close>

datatype AcquisitionProcessSignals =
    SHUTDOWN
  | SET_SWEEP_SPEED
  | SET_LOCK_STATUS
  | SET_CSR
  | SET_IIR_CSR
  | PAUSE_ACQUISIITON
  | CONTINUE_ACQUISITION
  | FETCH_QUADRATURES
  | SET_RAW_ACQUISITION
  | SET_DUAL_CHANNEL

text \<open>
  A message in the pipe is a Python tuple whose element 0 is an enum member; the second
  component lists the remaining elements of the tuple (\<open>data[1]\<close> is its head).
\<close>

type_synonym message = "AcquisitionProcessSignals \<times> pyobj list"

text \<open>The operations of the acquisition service that the worker loop calls, with their arguments.\<close>

datatype service_call =
    exposed_set_sweep_speed pyobj
  | exposed_set_lock_status pyobj
  | exposed_set_fetch_additional_signals pyobj
  | exposed_set_raw_acquisition pyobj
  | exposed_set_dual_channel pyobj
  | exposed_set_csr "pyobj list"
  | exposed_set_iir_csr "pyobj list"
  | exposed_pause_acquisition
  | exposed_continue_acquisition pyobj

text \<open>\<open>data[1]\<close>: an \<open>IndexError\<close> when the tuple has one element only.\<close>

fun item1 :: "pyobj list \<Rightarrow> exn + pyobj" where
  "item1 [] = Inl IndexError"
| "item1 (x # xs) = Inr x"

text \<open>\<open>*data[1]\<close>: argument unpacking iterates a tuple or a string and fails on other values.\<close>

fun star_args :: "pyobj \<Rightarrow> exn + pyobj list" where
  "star_args (PyTuple xs) = Inr xs"
| "star_args (PyStr s) = Inr (map (\<lambda>c. PyStr [c]) s)"
| "star_args PyNone = Inl TypeError"
| "star_args (PyBool b) = Inl TypeError"
| "star_args (PyInt i) = Inl TypeError"

text \<open>
  The \<open>if\<close>/\<open>elif\<close> chain of the worker loop, in the order of the source. The result is the
  exception raised or the service operation called.
\<close>

fun dispatch :: "message \<Rightarrow> exn + service_call" where
  "dispatch (SHUTDOWN, rest) = Inl SystemExit"
| "dispatch (SET_SWEEP_SPEED, rest) =
     (case item1 rest of Inl e \<Rightarrow> Inl e | Inr speed \<Rightarrow> Inr (exposed_set_sweep_speed speed))"
| "dispatch (SET_LOCK_STATUS, rest) =
     (case item1 rest of Inl e \<Rightarrow> Inl e | Inr a \<Rightarrow> Inr (exposed_set_lock_status a))"
| "dispatch (FETCH_QUADRATURES, rest) =
     (case item1 rest of Inl e \<Rightarrow> Inl e | Inr a \<Rightarrow> Inr (exposed_set_fetch_additional_signals a))"
| "dispatch (SET_RAW_ACQUISITION, rest) =
     (case item1 rest of Inl e \<Rightarrow> Inl e | Inr a \<Rightarrow> Inr (exposed_set_raw_acquisition a))"
| "dispatch (SET_DUAL_CHANNEL, rest) =
     (case item1 rest of Inl e \<Rightarrow> Inl e | Inr a \<Rightarrow> Inr (exposed_set_dual_channel a))"
| "dispatch (SET_CSR, rest) =
     (case item1 rest of Inl e \<Rightarrow> Inl e
      | Inr a \<Rightarrow> (case star_args a of Inl e \<Rightarrow> Inl e | Inr args \<Rightarrow> Inr (exposed_set_csr args)))"
| "dispatch (SET_IIR_CSR, rest) =
     (case item1 rest of Inl e \<Rightarrow> Inl e
      | Inr a \<Rightarrow> (case star_args a of Inl e \<Rightarrow> Inl e | Inr args \<Rightarrow> Inr (exposed_set_iir_csr args)))"
| "dispatch (PAUSE_ACQUISIITON, rest) = Inr exposed_pause_acquisition"
| "dispatch (CONTINUE_ACQUISITION, rest) =
     (case item1 rest of Inl e \<Rightarrow> Inl e | Inr a \<Rightarrow> Inr (exposed_continue_acquisition a))"

subsection \<open>The worker main loop\<close>

text \<open>
  The answer of \<open>exposed_return_data(last_hash)\<close>, the five components the loop unpacks.
\<close>

record return_data_result =
  new_data_returned :: bool
  new_hash :: pyobj
  data_was_raw :: pyobj
  new_data :: pyobj
  data_uuid :: pyobj

text \<open>What the worker does, in order: the observable trace of the loop.\<close>

datatype worker_event =
    rpyc_connect
  | stop_nginx
  | flash_fpga
  | pipe_send_ready
  | pipe_recv message
  | service service_call
  | return_data pyobj return_data_result
  | pipe_send_frame pyobj pyobj pyobj
  | sleep

text \<open>
  The inner loop \<open>while pipe.poll(): data = pipe.recv(); ...\<close> over the messages that are in
  the pipe while it runs. An exception (\<open>SystemExit\<close> for a shutdown) leaves the loop at once.
\<close>

fun drain :: "message list \<Rightarrow> worker_event list \<times> exn option" where
  "drain [] = ([], None)"
| "drain (d # ds) =
     (case dispatch d of
        Inl e \<Rightarrow> ([pipe_recv d], Some e)
      | Inr c \<Rightarrow> (case drain ds of (tr, r) \<Rightarrow> (pipe_recv d # service c # tr, r)))"

text \<open>
  One pass of the outer \<open>while True\<close> needs the messages queued during its drain and the data
  source's answer to \<open>exposed_return_data\<close> as a function of the hash it is asked with.
\<close>

record tick =
  queued :: "message list"
  reply :: "pyobj \<Rightarrow> return_data_result"

text \<open>
  The outer loop never ends by itself. \<open>main_loop\<close> runs it over a finite list of passes, a
  prefix of the execution: \<open>Inr last_hash\<close> is the loop still running, \<open>Inl e\<close> the exception
  that ended it.
\<close>

fun main_loop :: "pyobj \<Rightarrow> tick list \<Rightarrow> worker_event list \<times> (exn + pyobj)" where
  "main_loop last_hash [] = ([], Inr last_hash)"
| "main_loop last_hash (t # ts) =
     (case drain (queued t) of
        (tr, Some e) \<Rightarrow> (tr, Inl e)
      | (tr, None) \<Rightarrow>
          (let r = reply t last_hash in
           if new_data_returned r
           then (case main_loop (new_hash r) ts of
                   (tr', res) \<Rightarrow>
                     (tr @ [return_data last_hash r,
                            pipe_send_frame (data_was_raw r) (new_data r) (data_uuid r),
                            sleep] @ tr', res))
           else (case main_loop last_hash ts of
                   (tr', res) \<Rightarrow> (tr @ [return_data last_hash r, sleep] @ tr', res))))"

text \<open>\<open>connect_acquisition_service\<close>: the start-up, then the loop with \<open>last_hash = None\<close>.\<close>

definition connect_acquisition_service ::
    "bool \<Rightarrow> tick list \<Rightarrow> worker_event list \<times> (exn + pyobj)" where
  "connect_acquisition_service use_ssh ts =
     (case main_loop PyNone ts of
        (tr, res) \<Rightarrow>
          ((if use_ssh then [rpyc_connect] else [stop_nginx, flash_fpga]) @ [pipe_send_ready] @ tr,
           res))"

subsection \<open>The supervisor\<close>

text \<open>
  A \<open>Connection\<close> is one end of the pipe that \<open>Pipe()\<close> makes. \<open>peer_open\<close> tells whether
  the other end is still open: the worker process holds it and closes it when it exits, as it
  does on a shutdown command.
\<close>

record Connection =
  peer_open :: bool

text \<open>
  \<open>AcquisitionController\<close> keeps its end of the pipe in \<open>parent_conn\<close>; \<open>None\<close> stands for
  a value that is false in \<open>if self.parent_conn\<close>. What a method does is the list of its
  effects outside the process: a message put in the pipe, or the start of the nginx service.
\<close>

record AcquisitionController =
  parent_conn :: "Connection option"

datatype supervisor_event = conn_send message | start_nginx

text \<open>
  \<open>self.parent_conn.send(m)\<close>. \<open>None\<close> has no method \<open>send\<close>; a send into a pipe whose
  other end is closed raises \<open>BrokenPipeError\<close> and puts nothing in the pipe.
\<close>

definition send :: "AcquisitionController \<Rightarrow> message \<Rightarrow> exn + supervisor_event list" where
  "send c m =
     (case parent_conn c of
        None \<Rightarrow> Inl AttributeError
      | Some k \<Rightarrow> (if peer_open k then Inr [conn_send m] else Inl BrokenPipeError))"

definition pause_acquisition :: "AcquisitionController \<Rightarrow> exn + supervisor_event list" where
  "pause_acquisition c = send c (PAUSE_ACQUISIITON, [PyBool True])"

definition continue_acquisition ::
    "AcquisitionController \<Rightarrow> pyobj \<Rightarrow> exn + supervisor_event list" where
  "continue_acquisition c uuid = send c (CONTINUE_ACQUISITION, [uuid])"

definition shutdown :: "AcquisitionController \<Rightarrow> exn + supervisor_event list" where
  "shutdown c =
     (case (if parent_conn c \<noteq> None then send c (SHUTDOWN, []) else Inr []) of
        Inl e \<Rightarrow> Inl e
      | Inr evs \<Rightarrow> Inr (evs @ [start_nginx]))"

definition set_sweep_speed :: "AcquisitionController \<Rightarrow> pyobj \<Rightarrow> exn + supervisor_event list" where
  "set_sweep_speed c speed = send c (SET_SWEEP_SPEED, [speed])"

definition set_lock_status :: "AcquisitionController \<Rightarrow> pyobj \<Rightarrow> exn + supervisor_event list" where
  "set_lock_status c status =
     (if parent_conn c \<noteq> None then send c (SET_LOCK_STATUS, [status]) else Inr [])"

definition fetch_additional_signals ::
    "AcquisitionController \<Rightarrow> pyobj \<Rightarrow> exn + supervisor_event list" where
  "fetch_additional_signals c status =
     (if parent_conn c \<noteq> None then send c (FETCH_QUADRATURES, [status]) else Inr [])"

definition set_csr :: "AcquisitionController \<Rightarrow> pyobj \<Rightarrow> pyobj \<Rightarrow> exn + supervisor_event list" where
  "set_csr c key val = send c (SET_CSR, [PyTuple [key, val]])"

definition set_iir_csr :: "AcquisitionController \<Rightarrow> pyobj list \<Rightarrow> exn + supervisor_event list" where
  "set_iir_csr c args = send c (SET_IIR_CSR, [PyTuple args])"

definition set_raw_acquisition ::
    "AcquisitionController \<Rightarrow> pyobj \<Rightarrow> pyobj \<Rightarrow> exn + supervisor_event list" where
  "set_raw_acquisition c enabled decimation =
     send c (SET_RAW_ACQUISITION, [PyTuple [enabled, decimation]])"

definition set_dual_channel :: "AcquisitionController \<Rightarrow> pyobj \<Rightarrow> exn + supervisor_event list" where
  "set_dual_channel c enabled = send c (SET_DUAL_CHANNEL, [enabled])"

text \<open>A call of one of the command methods by the owner of the controller.\<close>

datatype invocation =
    call_pause_acquisition
  | call_continue_acquisition pyobj
  | call_shutdown
  | call_set_sweep_speed pyobj
  | call_set_lock_status pyobj
  | call_fetch_additional_signals pyobj
  | call_set_csr pyobj pyobj
  | call_set_iir_csr "pyobj list"
  | call_set_raw_acquisition pyobj pyobj
  | call_set_dual_channel pyobj

fun invoke :: "AcquisitionController \<Rightarrow> invocation \<Rightarrow> exn + supervisor_event list" where
  "invoke c call_pause_acquisition = pause_acquisition c"
| "invoke c (call_continue_acquisition uuid) = continue_acquisition c uuid"
| "invoke c call_shutdown = shutdown c"
| "invoke c (call_set_sweep_speed speed) = set_sweep_speed c speed"
| "invoke c (call_set_lock_status status) = set_lock_status c status"
| "invoke c (call_fetch_additional_signals status) = fetch_additional_signals c status"
| "invoke c (call_set_csr key val) = set_csr c key val"
| "invoke c (call_set_iir_csr args) = set_iir_csr c args"
| "invoke c (call_set_raw_acquisition enabled decimation) = set_raw_acquisition c enabled decimation"
| "invoke c (call_set_dual_channel enabled) = set_dual_channel c enabled"

text \<open>
  \<open>__init__\<close> opens the pipe, waits for the worker and ends with
  \<open>atexit.register(self.shutdown)\<close>: it gives the controller and the exit hooks it registered.
\<close>

datatype exit_hook = shutdown_hook

definition init_controller :: "AcquisitionController \<times> exit_hook list" where
  "init_controller = (\<lparr>parent_conn = Some \<lparr>peer_open = True\<rparr>\<rparr>, [shutdown_hook])"

text \<open>
  The effects of a call: none when it raises. Each method sends first, so an exception of the
  send leaves no effect behind; in \<open>shutdown\<close> it comes before \<open>start_nginx()\<close>, which is
  then not reached.
\<close>

definition events_of :: "exn + supervisor_event list \<Rightarrow> supervisor_event list" where
  "events_of r = (case r of Inl e \<Rightarrow> [] | Inr evs \<Rightarrow> evs)"

text \<open>
  At interpreter exit the registered hooks run, the last registered first; an exception of a
  hook does not stop the others.
\<close>

fun run_hook :: "AcquisitionController \<Rightarrow> exit_hook \<Rightarrow> supervisor_event list" where
  "run_hook c shutdown_hook = events_of (shutdown c)"

definition run_exit_hooks :: "AcquisitionController \<Rightarrow> exit_hook list \<Rightarrow> supervisor_event list" where
  "run_exit_hooks c hooks = concat (map (run_hook c) (rev hooks))"

text \<open>
  What happens during a lifetime of the supervisor, between construction and exit: the owner
  calls a command method, or the worker process exits (it does so some time after it has
  received a shutdown command, and it can die at any time).
\<close>

datatype lifetime_event = owner_calls invocation | worker_exits

text \<open>
  When the worker exits, its end of the pipe closes. An exception of a call goes to the owner:
  the lifetime goes on when the owner handles it and has no further events when it does not.
\<close>

definition worker_exit :: "AcquisitionController \<Rightarrow> AcquisitionController" where
  "worker_exit c = c\<lparr>parent_conn := map_option (\<lambda>k. k\<lparr>peer_open := False\<rparr>) (parent_conn c)\<rparr>"

fun run_lifetime ::
    "AcquisitionController \<Rightarrow> lifetime_event list \<Rightarrow> AcquisitionController \<times> supervisor_event list" where
  "run_lifetime c [] = (c, [])"
| "run_lifetime c (owner_calls i # es) =
     (case run_lifetime c es of (c', out) \<Rightarrow> (c', events_of (invoke c i) @ out))"
| "run_lifetime c (worker_exits # es) = run_lifetime (worker_exit c) es"

text \<open>
  A lifetime of the supervisor: construction, the events of the lifetime, then the exit of the
  process through the exit hooks, with the pipe as the events left it.
\<close>

definition supervisor_lifetime :: "lifetime_event list \<Rightarrow> supervisor_event list" where
  "supervisor_lifetime es =
     (case init_controller of
        (c, hooks) \<Rightarrow>
          (case run_lifetime c es of (c', out) \<Rightarrow> out @ run_exit_hooks c' hooks))"





subsection \<open>Observations on the worker trace\<close>








section \<open>The remote parameter mirror (linien_client/remote_parameters.py)\<close>

subsection \<open>Objects\<close>

text \<open>
  A callback is an opaque callable of the caller, known by its identity. Calling it is an
  event of the trace; it is taken to return normally and to leave the mirror alone.
\<close>

type_synonym callback = nat

text \<open>
  \<open>RemoteParameter\<close>: the attributes that \<open>__init__\<close> sets and the attribute
  \<open>_cached_value\<close>, which exists only once \<open>update_cache\<close> has run. The attribute \<open>parent\<close>
  is the mirror that holds the handle.
\<close>

record RemoteParameter =
  name :: string
  use_cache :: bool
  restorable :: bool
  loggable :: bool
  cached_value :: "pyobj option"

text \<open>
  The objects that an attribute of the mirror can hold: a plain value, the root of the rpyc
  connection, an \<open>AsyncResult\<close> (by its address), a list of names, a dictionary from names
  to callback lists, a handle, the mirror itself, or an attribute of a class (a method or a
  property).
\<close>

datatype obj =
    Val pyobj
  | RemoteRoot
  | Async nat
  | StrList "string list"
  | CallbackDict "(string \<times> callback list) list"
  | Param RemoteParameter
  | Mirror
  | ClassAttribute string

fun truthy :: "obj \<Rightarrow> bool" where
  "truthy (Val v) = truthy_val v"
| "truthy RemoteRoot = True"
| "truthy (Async i) = True"
| "truthy (StrList l) = (l \<noteq> [])"
| "truthy (CallbackDict d) = (d \<noteq> [])"
| "truthy (Param p) = True"
| "truthy Mirror = True"
| "truthy (ClassAttribute a) = True"

text \<open>
  The two asynchronous requests of the mirror, and an \<open>AsyncResult\<close>: the request it stands
  for, whether the answer has arrived, and the answer (a batch of changes for a fetch).
\<close>

datatype rpc = get_changed_parameters_queue | register_remote_listeners

record AsyncResult =
  request :: rpc
  fut_ready :: bool
  fut_value :: "(string \<times> pyobj) list"

text \<open>
  What the mirror does towards the server and towards its callbacks, in order. The two
  asynchronous calls carry the address of their \<open>AsyncResult\<close>. \<open>cache_updated\<close> marks a run
  of \<open>update_cache\<close>.
\<close>

datatype event =
    exposed_init_parameter_sync obj
  | exposed_get_param string
  | exposed_set_param string pyobj
  | exposed_reset_param string
  | exposed_get_changed_parameters_queue nat obj
  | exposed_register_remote_listeners nat obj "string list"
  | cache_updated string pyobj
  | callback_called callback pyobj

text \<open>
  The state: the \<open>__dict__\<close> of the mirror (an association list, in insertion order as a
  Python dictionary), the store of the \<open>AsyncResult\<close> objects, the values that the server
  answers to \<open>exposed_get_param\<close>, and the trace.
\<close>

record world =
  self_dict :: "(string \<times> obj) list"
  futures :: "AsyncResult list"
  remote_values :: "(string \<times> pyobj) list"
  trace :: "event list"

subsection \<open>Statements that can raise\<close>

text \<open>
  A piece of Python is a function from the state to its result, an exception or a value, and
  the state it leaves. An exception keeps the changes made before it.
\<close>

type_synonym 'a py = "world \<Rightarrow> (exn + 'a) \<times> world"

definition py_return :: "'a \<Rightarrow> 'a py" where
  "py_return x w = (Inr x, w)"

definition py_raise :: "exn \<Rightarrow> 'a py" where
  "py_raise e w = (Inl e, w)"

definition py_bind :: "'a py \<Rightarrow> ('a \<Rightarrow> 'b py) \<Rightarrow> 'b py" where
  "py_bind m f w = (case m w of (Inl e, w') \<Rightarrow> (Inl e, w') | (Inr x, w') \<Rightarrow> f x w')"

definition emit :: "event \<Rightarrow> unit py" where
  "emit e w = (Inr (), w\<lparr>trace := trace w @ [e]\<rparr>)"

subsection \<open>Attributes of the mirror\<close>

text \<open>
  \<open>getattr(self, n)\<close> on the mirror. A name that is no key of \<open>__dict__\<close> raises
  \<open>AttributeError\<close>; the methods of the class are no handles either, and the code that
  follows a lookup fails on them with the same exception.
\<close>

definition getattr_self :: "string \<Rightarrow> obj py" where
  "getattr_self n w =
     (case map_of (self_dict w) n of
        None \<Rightarrow> (Inl AttributeError, w)
      | Some v \<Rightarrow> (Inr v, w))"

fun startswith :: "string \<Rightarrow> string \<Rightarrow> bool" where
  "startswith s [] = True"
| "startswith [] (p # ps) = False"
| "startswith (c # cs) (p # ps) = (c = p \<and> startswith cs ps)"

text \<open>\<open>hasattr(self, "_attributes_locked") and self._attributes_locked\<close>.\<close>

definition attributes_locked :: "world \<Rightarrow> bool" where
  "attributes_locked w =
     (case map_of (self_dict w) ''_attributes_locked'' of
        None \<Rightarrow> False
      | Some v \<Rightarrow> truthy v)"

text \<open>
  \<open>RemoteParameters.__setattr__\<close>: the guard, then \<open>super().__setattr__(name, value)\<close>, which
  binds the name in \<open>__dict__\<close>.
\<close>

definition setattr :: "string \<Rightarrow> obj \<Rightarrow> unit py" where
  "setattr n v w =
     (if attributes_locked w \<and> \<not> startswith n ''_''
      then (Inl AttributeError, w)
      else (Inr (), w\<lparr>self_dict := AList.update n v (self_dict w)\<rparr>))"

text \<open>\<open>RemoteParameters.__iter__\<close>: the handles of the mirror, with their names.\<close>

fun iter :: "(string \<times> obj) list \<Rightarrow> (string \<times> RemoteParameter) list" where
  "iter [] = []"
| "iter ((n, Param p) # d) = (n, p) # iter d"
| "iter ((n, v) # d) = iter d"

subsection \<open>Calls to the server\<close>

text \<open>
  \<open>self.remote.exposed_...\<close>: the attribute \<open>remote\<close> has to be the connection root; no other
  object of the model has the \<open>exposed_\<close> methods.
\<close>

definition remote_root :: "unit py" where
  "remote_root =
     py_bind (getattr_self ''remote'')
       (\<lambda>r. case r of RemoteRoot \<Rightarrow> py_return () | _ \<Rightarrow> py_raise AttributeError)"

text \<open>
  \<open>async_(f)(args)\<close> sends the request and gives a new \<open>AsyncResult\<close> that is not ready.
\<close>

definition async_call :: "rpc \<Rightarrow> (nat \<Rightarrow> event) \<Rightarrow> obj py" where
  "async_call r ev w =
     (Inr (Async (length (futures w))),
      w\<lparr>futures := futures w @ [\<lparr>request = r, fut_ready = False, fut_value = []\<rparr>],
        trace := trace w @ [ev (length (futures w))]\<rparr>)"

text \<open>\<open>.ready\<close> and \<open>.value\<close> of an object; only an \<open>AsyncResult\<close> has them.\<close>

definition async_ready :: "obj \<Rightarrow> bool py" where
  "async_ready a w =
     (case a of
        Async i \<Rightarrow>
          (if i < length (futures w) then (Inr (fut_ready (futures w ! i)), w)
           else (Inl AttributeError, w))
      | _ \<Rightarrow> (Inl AttributeError, w))"

definition async_value :: "obj \<Rightarrow> (string \<times> pyobj) list py" where
  "async_value a w =
     (case a of
        Async i \<Rightarrow>
          (if i < length (futures w) then (Inr (fut_value (futures w ! i)), w)
           else (Inl AttributeError, w))
      | _ \<Rightarrow> (Inl AttributeError, w))"

text \<open>
  The server answers a request: the \<open>AsyncResult\<close> at address \<open>i\<close> becomes ready and holds
  the batch. This is a step of the environment, not of the mirror.
\<close>

definition server_reply :: "nat \<Rightarrow> (string \<times> pyobj) list \<Rightarrow> world \<Rightarrow> world" where
  "server_reply i batch w =
     (if i < length (futures w) \<and> \<not> fut_ready (futures w ! i)
      then w\<lparr>futures := (futures w)[i := (futures w ! i)\<lparr>fut_ready := True, fut_value := batch\<rparr>]\<rparr>
      else w)"

subsection \<open>RemoteParameter\<close>

text \<open>
  Attribute lookup on a handle: the instance attributes first, then the attributes of the
  class \<open>RemoteParameter\<close> (the property \<open>value\<close> and the three methods). Any other name
  raises \<open>AttributeError\<close>.
\<close>

definition instance_attributes :: "RemoteParameter \<Rightarrow> (string \<times> obj) list" where
  "instance_attributes p =
     [(''name'', Val (PyStr (name p))),
      (''parent'', Mirror),
      (''use_cache'', Val (PyBool (use_cache p))),
      (''restorable'', Val (PyBool (restorable p))),
      (''loggable'', Val (PyBool (loggable p)))]
     @ (case cached_value p of None \<Rightarrow> [] | Some v \<Rightarrow> [(''_cached_value'', Val v)])"

definition class_attributes :: "string list" where
  "class_attributes = [''value'', ''add_callback'', ''reset'', ''update_cache'']"

definition getattr_param :: "RemoteParameter \<Rightarrow> string \<Rightarrow> obj py" where
  "getattr_param p a w =
     (case map_of (instance_attributes p) a of
        Some v \<Rightarrow> (Inr v, w)
      | None \<Rightarrow>
          (if a \<in> set class_attributes then (Inr (ClassAttribute a), w)
           else (Inl AttributeError, w)))"

text \<open>\<open>update_cache\<close>: \<open>self._cached_value = value\<close>.\<close>

definition update_cache :: "RemoteParameter \<Rightarrow> pyobj \<Rightarrow> RemoteParameter" where
  "update_cache p v = p\<lparr>cached_value := Some v\<rparr>"

text \<open>
  \<open>param.update_cache(value)\<close> for the handle \<open>p\<close> that the attribute \<open>n\<close> of the mirror
  holds: the object changes in place, where the mirror keeps it.
\<close>

definition update_cache_at :: "string \<Rightarrow> RemoteParameter \<Rightarrow> pyobj \<Rightarrow> world \<Rightarrow> world" where
  "update_cache_at n p v w =
     w\<lparr>self_dict := AList.update n (Param (update_cache p v)) (self_dict w),
       trace := trace w @ [cache_updated n v]\<rparr>"

text \<open>
  The getter of the property \<open>value\<close>: the cached value when \<open>_cached_value\<close> exists, a call
  to the server otherwise.
\<close>

definition value_get :: "RemoteParameter \<Rightarrow> pyobj py" where
  "value_get p =
     (case cached_value p of
        Some v \<Rightarrow> py_return v
      | None \<Rightarrow>
          py_bind remote_root (\<lambda>_.
          py_bind (emit (exposed_get_param (name p))) (\<lambda>_.
          (\<lambda>w. case map_of (remote_values w) (name p) of
                  None \<Rightarrow> (Inl AttributeError, w)
                | Some v \<Rightarrow> (Inr v, w)))))"

text \<open>The setter of the property \<open>value\<close>: one call to the server.\<close>

definition value_set :: "RemoteParameter \<Rightarrow> pyobj \<Rightarrow> unit py" where
  "value_set p v = py_bind remote_root (\<lambda>_. emit (exposed_set_param (name p) v))"

definition reset :: "RemoteParameter \<Rightarrow> unit py" where
  "reset p = py_bind remote_root (\<lambda>_. emit (exposed_reset_param (name p)))"

text \<open>\<open>x in container\<close>, for the containers of the model.\<close>

definition contains :: "obj \<Rightarrow> string \<Rightarrow> bool py" where
  "contains c n =
     (case c of
        CallbackDict d \<Rightarrow> py_return (map_of d n \<noteq> None)
      | StrList l \<Rightarrow> py_return (n \<in> set l)
      | _ \<Rightarrow> py_raise TypeError)"

text \<open>\<open>self.parent._listeners_pending_remote_registration.append(n)\<close>.\<close>

definition pending_append :: "string \<Rightarrow> unit py" where
  "pending_append n =
     py_bind (getattr_self ''_listeners_pending_remote_registration'')
       (\<lambda>l. case l of
          StrList ns \<Rightarrow>
            (\<lambda>w. (Inr (), w\<lparr>self_dict :=
                AList.update ''_listeners_pending_remote_registration'' (StrList (ns @ [n]))
                  (self_dict w)\<rparr>))
        | _ \<Rightarrow> py_raise AttributeError)"

text \<open>\<open>self.parent._callbacks.setdefault(n, [])\<close>.\<close>

definition callbacks_setdefault :: "string \<Rightarrow> unit py" where
  "callbacks_setdefault n =
     py_bind (getattr_self ''_callbacks'')
       (\<lambda>c. case c of
          CallbackDict d \<Rightarrow>
            (\<lambda>w. (Inr (), w\<lparr>self_dict :=
                AList.update ''_callbacks''
                  (CallbackDict (case map_of d n of None \<Rightarrow> AList.update n [] d | Some fs \<Rightarrow> d))
                  (self_dict w)\<rparr>))
        | _ \<Rightarrow> py_raise AttributeError)"

text \<open>\<open>self.parent._callbacks[n].append(callback)\<close>.\<close>

definition callbacks_append :: "string \<Rightarrow> callback \<Rightarrow> unit py" where
  "callbacks_append n f =
     py_bind (getattr_self ''_callbacks'')
       (\<lambda>c. case c of
          CallbackDict d \<Rightarrow>
            (case map_of d n of
               None \<Rightarrow> py_raise KeyError
             | Some fs \<Rightarrow>
                 (\<lambda>w. (Inr (), w\<lparr>self_dict :=
                     AList.update ''_callbacks'' (CallbackDict (AList.update n (fs @ [f]) d))
                       (self_dict w)\<rparr>)))
        | _ \<Rightarrow> py_raise TypeError)"

text \<open>
  \<open>add_callback\<close>, statement by statement. The condition of the first \<open>if\<close> reads
  \<open>self._callbacks\<close>, an attribute of the handle, before anything else; the two statements
  after it use \<open>self.parent._callbacks\<close>, the dictionary of the mirror.
\<close>

definition add_callback :: "RemoteParameter \<Rightarrow> callback \<Rightarrow> bool \<Rightarrow> unit py" where
  "add_callback p callback call_with_first_value =
     py_bind (getattr_param p ''_callbacks'') (\<lambda>own_callbacks.
     py_bind (contains own_callbacks (name p)) (\<lambda>known.
     py_bind (if \<not> known \<and> \<not> use_cache p then pending_append (name p) else py_return ()) (\<lambda>_.
     py_bind (callbacks_setdefault (name p)) (\<lambda>_.
     py_bind (callbacks_append (name p) callback) (\<lambda>_.
     if call_with_first_value
     then py_bind (value_get p) (\<lambda>v. emit (callback_called callback v))
     else py_return ())))))"

subsection \<open>RemoteParameters\<close>

text \<open>
  The statements below read the attributes that \<open>__init__\<close> created. Where an attribute
  holds an object of another kind than \<open>__init__\<close> put there (it can be rebound from
  outside), the operation applied to it raises; the model raises \<open>AttributeError\<close> or
  \<open>TypeError\<close> there without following Python's behaviour for each kind of object. The
  properties proved below are about mirrors whose own attributes are in order.
\<close>

text \<open>
  Lines 188 to 195 of \<open>check_for_changed_parameters\<close>: start the fetch when there is none.
\<close>

definition request_changed_parameters :: "unit py" where
  "request_changed_parameters =
     py_bind (getattr_self ''_async_changed_parameters_queue'') (\<lambda>q.
     if q = Val PyNone
     then py_bind remote_root (\<lambda>_.
          py_bind (getattr_self ''uuid'') (\<lambda>u.
          py_bind (async_call get_changed_parameters_queue
                     (\<lambda>i. exposed_get_changed_parameters_queue i u)) (\<lambda>a.
          setattr ''_async_changed_parameters_queue'' a)))
     else py_return ())"

text \<open>\<open>pending[:]\<close> and \<open>.clear()\<close> on the list of pending names.\<close>

definition copy_list :: "obj \<Rightarrow> string list py" where
  "copy_list l = (case l of StrList ns \<Rightarrow> py_return ns | _ \<Rightarrow> py_raise TypeError)"

definition pending_clear :: "unit py" where
  "pending_clear =
     py_bind (getattr_self ''_listeners_pending_remote_registration'')
       (\<lambda>l. case l of
          StrList ns \<Rightarrow>
            (\<lambda>w. (Inr (), w\<lparr>self_dict :=
                AList.update ''_listeners_pending_remote_registration'' (StrList [])
                  (self_dict w)\<rparr>))
        | _ \<Rightarrow> py_raise AttributeError)"

text \<open>Lines 197 to 208: send the pending names when no registration is under way.\<close>

definition register_pending_listeners :: "unit py" where
  "register_pending_listeners =
     py_bind (getattr_self ''_async_listener_registering'') (\<lambda>m.
     if m = Val PyNone
     then py_bind (getattr_self ''_listeners_pending_remote_registration'') (\<lambda>pending.
          if truthy pending
          then py_bind (copy_list pending) (\<lambda>pending_copy.
               py_bind remote_root (\<lambda>_.
               py_bind (getattr_self ''uuid'') (\<lambda>u.
               py_bind (async_call register_remote_listeners
                          (\<lambda>i. exposed_register_remote_listeners i u pending_copy)) (\<lambda>a.
               py_bind (setattr ''_async_listener_registering'' a) (\<lambda>_.
               pending_clear)))))
          else py_return ())
     else py_return ())"

text \<open>
  The first loop over the batch (lines 226 to 229): \<open>getattr(self, param_name)\<close>, then
  \<open>update_cache\<close> when the handle uses the cache. Only a handle has \<open>use_cache\<close>.
\<close>

fun update_caches :: "(string \<times> pyobj) list \<Rightarrow> unit py" where
  "update_caches [] w = (Inr (), w)"
| "update_caches ((n, v) # queue) w =
     (case getattr_self n w of
        (Inl e, w') \<Rightarrow> (Inl e, w')
      | (Inr (Param p), w') \<Rightarrow>
          (if use_cache p then update_caches queue (update_cache_at n p v w')
           else update_caches queue w')
      | (Inr other, w') \<Rightarrow> (Inl AttributeError, w'))"

text \<open>
  The second loop (lines 232 to 235): the callbacks registered for each name of the batch,
  in the order of the batch and of their registration.
\<close>

fun call_callbacks :: "(string \<times> pyobj) list \<Rightarrow> unit py" where
  "call_callbacks [] w = (Inr (), w)"
| "call_callbacks ((n, v) # queue) w =
     (case getattr_self ''_callbacks'' w of
        (Inl e, w') \<Rightarrow> (Inl e, w')
      | (Inr (CallbackDict d), w') \<Rightarrow>
          (case map_of d n of
             None \<Rightarrow> call_callbacks queue w'
           | Some fs \<Rightarrow>
               call_callbacks queue (w'\<lparr>trace := trace w' @ map (\<lambda>f. callback_called f v) fs\<rparr>))
      | (Inr other, w') \<Rightarrow> (Inl TypeError, w'))"

text \<open>
  Lines 210 to 235: when the fetch is ready, take its batch, start the next fetch, update the
  caches, call the callbacks.
\<close>

definition consume_changed_parameters :: "unit py" where
  "consume_changed_parameters =
     py_bind (getattr_self ''_async_changed_parameters_queue'') (\<lambda>q.
     if q = Val PyNone then py_return ()
     else py_bind (async_ready q) (\<lambda>rdy.
          if rdy
          then py_bind (async_value q) (\<lambda>queue.
               py_bind remote_root (\<lambda>_.
               py_bind (getattr_self ''uuid'') (\<lambda>u.
               py_bind (async_call get_changed_parameters_queue
                          (\<lambda>i. exposed_get_changed_parameters_queue i u)) (\<lambda>a.
               py_bind (setattr ''_async_changed_parameters_queue'' a) (\<lambda>_.
               py_bind (update_caches queue) (\<lambda>_.
               call_callbacks queue))))))
          else py_return ()))"

text \<open>Lines 237 to 243: forget the registration once the server has answered it.\<close>

definition finish_listener_registering :: "unit py" where
  "finish_listener_registering =
     py_bind (getattr_self ''_async_listener_registering'') (\<lambda>m.
     if m = Val PyNone then py_return ()
     else py_bind (async_ready m) (\<lambda>rdy.
          if rdy then setattr ''_async_listener_registering'' (Val PyNone)
          else py_return ()))"

definition check_for_changed_parameters :: "unit py" where
  "check_for_changed_parameters =
     py_bind request_changed_parameters (\<lambda>_.
     py_bind register_pending_listeners (\<lambda>_.
     py_bind consume_changed_parameters (\<lambda>_.
     finish_listener_registering)))"

text \<open>
  The loop of \<open>__init__\<close> over the inventory that the server sent: one handle for each entry,
  bound with \<open>setattr(self, name, param)\<close>, its cache seeded when it uses the cache.
\<close>

fun init_parameters :: "bool \<Rightarrow> (string \<times> pyobj \<times> bool \<times> bool \<times> bool) list \<Rightarrow> unit py" where
  "init_parameters uc [] w = (Inr (), w)"
| "init_parameters uc ((n, v, can_be_cached, r, l) # ps) w =
     (case setattr n (Param \<lparr>name = n, use_cache = (uc \<and> can_be_cached), restorable = r,
                              loggable = l, cached_value = None\<rparr>) w of
        (Inl e, w') \<Rightarrow> (Inl e, w')
      | (Inr u, w') \<Rightarrow>
          (if uc \<and> can_be_cached
           then init_parameters uc ps
                  (update_cache_at n \<lparr>name = n, use_cache = (uc \<and> can_be_cached), restorable = r,
                                       loggable = l, cached_value = None\<rparr> v w')
           else init_parameters uc ps w'))"

text \<open>
  \<open>RemoteParameters.__init__\<close>. The inventory \<open>all_parameters\<close> is the server's answer to
  \<open>exposed_init_parameter_sync\<close>; \<open>server_values\<close> are the values it holds.
\<close>

definition init ::
    "pyobj \<Rightarrow> bool \<Rightarrow> (string \<times> pyobj \<times> bool \<times> bool \<times> bool) list \<Rightarrow> (string \<times> pyobj) list
       \<Rightarrow> (exn + unit) \<times> world" where
  "init uuid uc all_parameters server_values =
     (py_bind (setattr ''remote'' RemoteRoot) (\<lambda>_.
      py_bind (setattr ''uuid'' (Val uuid)) (\<lambda>_.
      py_bind (setattr ''_async_changed_parameters_queue'' (Val PyNone)) (\<lambda>_.
      py_bind (setattr ''_async_listener_registering'' (Val PyNone)) (\<lambda>_.
      py_bind (setattr ''_listeners_pending_remote_registration'' (StrList [])) (\<lambda>_.
      py_bind (setattr ''_callbacks'' (CallbackDict [])) (\<lambda>_.
      py_bind remote_root (\<lambda>_.
      py_bind (getattr_self ''uuid'') (\<lambda>u.
      py_bind (emit (exposed_init_parameter_sync u)) (\<lambda>_.
      py_bind (init_parameters uc all_parameters) (\<lambda>_.
      py_bind (setattr ''_attributes_locked'' (Val (PyBool True))) (\<lambda>_.
      check_for_changed_parameters))))))))))))
       \<lparr>self_dict = [], futures = [], remote_values = server_values, trace = []\<rparr>"

text \<open>Reading a parameter through the mirror: \<open>mirror.n.value\<close>.\<close>

definition read_value :: "string \<Rightarrow> pyobj py" where
  "read_value n =
     py_bind (getattr_self n)
       (\<lambda>h. case h of Param p \<Rightarrow> value_get p | _ \<Rightarrow> py_raise AttributeError)"

subsection \<open>Observations on the mirror\<close>

text \<open>
  The mirror of the scenario in the specification: a cacheable parameter \<open>speed\<close> and a
  parameter \<open>status\<close> that is not cacheable, as \<open>__init__\<close> leaves it.
\<close>

definition example_inventory :: "(string \<times> pyobj \<times> bool \<times> bool \<times> bool) list" where
  "example_inventory =
     [(''speed'', PyInt 10, True, True, True), (''status'', PyStr ''idle'', False, False, False)]"

definition example_status :: RemoteParameter where
  "example_status = \<lparr>name = ''status'', use_cache = False, restorable = False, loggable = False,
                      cached_value = None\<rparr>"

definition example_mirror :: world where
  "example_mirror =
     \<lparr>self_dict =
        [(''remote'', RemoteRoot), (''uuid'', Val (PyStr ''u1'')),
         (''_async_changed_parameters_queue'', Async 0),
         (''_async_listener_registering'', Val PyNone),
         (''_listeners_pending_remote_registration'', StrList []),
         (''_callbacks'', CallbackDict []),
         (''speed'', Param \<lparr>name = ''speed'', use_cache = True, restorable = True,
                             loggable = True, cached_value = Some (PyInt 10)\<rparr>),
         (''status'', Param example_status),
         (''_attributes_locked'', Val (PyBool True))],
      futures = [\<lparr>request = get_changed_parameters_queue, fut_ready = False, fut_value = []\<rparr>],
      remote_values = [(''speed'', PyInt 10), (''status'', PyStr ''idle'')],
      trace = [exposed_init_parameter_sync (Val (PyStr ''u1'')),
               cache_updated ''speed'' (PyInt 10),
               exposed_get_changed_parameters_queue 0 (Val (PyStr ''u1''))]\<rparr>"

text \<open>The attribute \<open>n\<close> of the mirror holds a handle; the handle uses the cache.\<close>

definition is_handle :: "world \<Rightarrow> string \<Rightarrow> bool" where
  "is_handle w n = (case map_of (self_dict w) n of Some (Param p) \<Rightarrow> True | _ \<Rightarrow> False)"

definition cache_backed :: "world \<Rightarrow> string \<Rightarrow> bool" where
  "cache_backed w n = (case map_of (self_dict w) n of Some (Param p) \<Rightarrow> use_cache p | _ \<Rightarrow> False)"

text \<open>
  The cache updates that a batch asks for, in the order of the batch: one for each entry
  whose handle uses the cache.
\<close>

definition cache_events :: "world \<Rightarrow> (string \<times> pyobj) list \<Rightarrow> event list" where
  "cache_events w q = map (\<lambda>(n, v). cache_updated n v) (filter (\<lambda>(n, v). cache_backed w n) q)"

text \<open>
  The callback calls that a batch asks for: for each entry in the order of the batch, the
  callbacks registered for its name, in the order of their registration, with the entry's value.
\<close>

definition callbacks_of :: "world \<Rightarrow> (string \<times> callback list) list" where
  "callbacks_of w = (case map_of (self_dict w) ''_callbacks'' of Some (CallbackDict d) \<Rightarrow> d | _ \<Rightarrow> [])"

definition callback_events :: "world \<Rightarrow> (string \<times> pyobj) list \<Rightarrow> event list" where
  "callback_events w q =
     concat (map (\<lambda>(n, v). map (\<lambda>f. callback_called f v)
                              (case map_of (callbacks_of w) n of None \<Rightarrow> [] | Some fs \<Rightarrow> fs)) q)"

text \<open>The events that are an asynchronous request to the server.\<close>

fun is_request :: "event \<Rightarrow> bool" where
  "is_request (exposed_get_changed_parameters_queue i u) = True"
| "is_request (exposed_register_remote_listeners i u l) = True"
| "is_request e = False"

text \<open>
  What an attribute holds after the caches are updated from the batch \<open>q\<close>: a handle that
  uses the cache holds the last value that the batch has for its name, anything else stays.
\<close>

definition after_batch :: "(string \<times> pyobj) list \<Rightarrow> string \<Rightarrow> obj option \<Rightarrow> obj option" where
  "after_batch q k x =
     (case x of
        Some (Param p) \<Rightarrow>
          Some (Param (if use_cache p
                       then (case map_of (rev q) k of None \<Rightarrow> p | Some v \<Rightarrow> update_cache p v)
                       else p))
      | other \<Rightarrow> other)"

text \<open>
  A marker of an outstanding call holds \<open>None\<close> or an \<open>AsyncResult\<close> of its request. In
  a mirror that is in order, the attributes that \<open>__init__\<close> created for the mirror's own
  use hold objects of the kind \<open>__init__\<close> put there.
\<close>

definition marker_ok :: "rpc \<Rightarrow> world \<Rightarrow> string \<Rightarrow> bool" where
  "marker_ok r w a =
     (case map_of (self_dict w) a of
        Some (Val PyNone) \<Rightarrow> True
      | Some (Async i) \<Rightarrow> i < length (futures w) \<and> request (futures w ! i) = r
      | _ \<Rightarrow> False)"

definition mirror_ok :: "world \<Rightarrow> bool" where
  "mirror_ok w =
     (map_of (self_dict w) ''remote'' = Some RemoteRoot
      \<and> map_of (self_dict w) ''uuid'' \<noteq> None
      \<and> marker_ok get_changed_parameters_queue w ''_async_changed_parameters_queue''
      \<and> marker_ok register_remote_listeners w ''_async_listener_registering''
      \<and> (case map_of (self_dict w) ''_listeners_pending_remote_registration'' of
            Some (StrList l) \<Rightarrow> True | _ \<Rightarrow> False)
      \<and> (case map_of (self_dict w) ''_callbacks'' of
            Some (CallbackDict d) \<Rightarrow> True | _ \<Rightarrow> False))"

text \<open>
  A mirror with callbacks and a pending registration, whose fetch has been answered with a
  batch that names \<open>speed\<close> twice.
\<close>

definition example_batch :: "(string \<times> pyobj) list" where
  "example_batch = [(''speed'', PyInt 11), (''status'', PyStr ''locked''), (''speed'', PyInt 12)]"

definition example_listening :: world where
  "example_listening =
     \<lparr>self_dict =
        [(''remote'', RemoteRoot), (''uuid'', Val (PyStr ''u1'')),
         (''_async_changed_parameters_queue'', Async 0),
         (''_async_listener_registering'', Val PyNone),
         (''_listeners_pending_remote_registration'', StrList [''status'']),
         (''_callbacks'', CallbackDict [(''speed'', [1]), (''status'', [2, 3])]),
         (''speed'', Param \<lparr>name = ''speed'', use_cache = True, restorable = True,
                             loggable = True, cached_value = Some (PyInt 10)\<rparr>),
         (''status'', Param example_status),
         (''_attributes_locked'', Val (PyBool True))],
      futures = [\<lparr>request = get_changed_parameters_queue, fut_ready = True,
                  fut_value = example_batch\<rparr>],
      remote_values = [(''speed'', PyInt 12), (''status'', PyStr ''locked'')],
      trace = []\<rparr>"

subsection \<open>Outstanding requests\<close>

text \<open>
  The addresses of the requests of kind \<open>r\<close> that the server has not answered yet.
\<close>

definition outstanding :: "rpc \<Rightarrow> world \<Rightarrow> nat list" where
  "outstanding r w =
     filter (\<lambda>j. request (futures w ! j) = r \<and> \<not> fut_ready (futures w ! j))
       [0..<length (futures w)]"

text \<open>
  Every request that is not answered yet is the one its marker names.
\<close>

definition requests_tracked :: "world \<Rightarrow> bool" where
  "requests_tracked w =
     ((\<forall>j\<in>set (outstanding get_changed_parameters_queue w).
         map_of (self_dict w) ''_async_changed_parameters_queue'' = Some (Async j))
      \<and> (\<forall>j\<in>set (outstanding register_remote_listeners w).
         map_of (self_dict w) ''_async_listener_registering'' = Some (Async j)))"

text \<open>
  What can happen to a mirror between and during the calls of
  \<open>check_for_changed_parameters\<close>: one of the four parts of the method, the whole method, or
  an answer of the server to a request. The parts may be separated by answers of the server,
  since \<open>.ready\<close> looks at the connection each time it is read.
\<close>

datatype step =
    request_step
  | register_step
  | consume_step
  | finish_step
  | poll_step
  | reply_step nat "(string \<times> pyobj) list"

fun do_step :: "step \<Rightarrow> world \<Rightarrow> world" where
  "do_step request_step w = snd (request_changed_parameters w)"
| "do_step register_step w = snd (register_pending_listeners w)"
| "do_step consume_step w = snd (consume_changed_parameters w)"
| "do_step finish_step w = snd (finish_listener_registering w)"
| "do_step poll_step w = snd (check_for_changed_parameters w)"
| "do_step (reply_step i batch) w = server_reply i batch w"

definition run_steps :: "step list \<Rightarrow> world \<Rightarrow> world" where
  "run_steps ss w = foldl (\<lambda>w s. do_step s w) w ss"

text \<open>The requests that exist in \<open>w'\<close> and did not exist in \<open>w\<close>.\<close>

definition issued :: "world \<Rightarrow> world \<Rightarrow> rpc list" where
  "issued w w' = map request (drop (length (futures w)) (futures w'))"

text \<open>The invariant of the poll: the mirror is in order and its requests are tracked.\<close>

definition poll_invariant :: "world \<Rightarrow> bool" where
  "poll_invariant w = (mirror_ok w \<and> requests_tracked w)"

text \<open>
  The two markers, whether the fetch that the marker names has been answered, and the pending
  names.
\<close>

definition fetch_marker :: "world \<Rightarrow> obj option" where
  "fetch_marker w = map_of (self_dict w) ''_async_changed_parameters_queue''"

definition registering_marker :: "world \<Rightarrow> obj option" where
  "registering_marker w = map_of (self_dict w) ''_async_listener_registering''"

definition fetch_is_ready :: "world \<Rightarrow> bool" where
  "fetch_is_ready w =
     (case fetch_marker w of
        Some (Async i) \<Rightarrow> i < length (futures w) \<and> fut_ready (futures w ! i)
      | _ \<Rightarrow> False)"

definition pending_names :: "world \<Rightarrow> string list" where
  "pending_names w =
     (case map_of (self_dict w) ''_listeners_pending_remote_registration'' of
        Some (StrList l) \<Rightarrow> l
      | _ \<Rightarrow> [])"

text \<open>Polls, answers of the server and single parts of a poll, for the examples.\<close>

definition example_steps :: "step list" where
  "example_steps =
     [poll_step, reply_step 2 [(''status'', PyStr ''idle'')], poll_step, reply_step 1 [],
      request_step, register_step, consume_step]"

text \<open>The attributes that \<open>__init__\<close> creates for the mirror's own use.\<close>

definition internal_names :: "string list" where
  "internal_names =
     [''remote'', ''uuid'', ''_async_changed_parameters_queue'', ''_async_listener_registering'',
      ''_listeners_pending_remote_registration'', ''_callbacks'']"

section \<open>Properties of the worker loop and of the supervisor\<close>

subsection \<open>Shutdown\<close>

lemma split_after_prefix:
  "xs @ ys = pre @ x # post \<Longrightarrow> x \<notin> set xs \<Longrightarrow> \<exists>pre'. pre = xs @ pre' \<and> ys = pre' @ x # post"
proof (induction xs arbitrary: pre)
  case Nil
  then show ?case by simp
next
  case (Cons a xs)
  then show ?case by (cases pre) auto
qed

lemma dispatch_shutdown_iff: "dispatch (SHUTDOWN, args) = Inl SystemExit"
  by simp

lemma drain_shutdown:
  "drain ds = (tr, r) \<Longrightarrow> tr = pre @ pipe_recv (SHUTDOWN, args) # post
     \<Longrightarrow> post = [] \<and> r = Some SystemExit"
proof (induction ds arbitrary: tr r pre)
  case Nil
  then show ?case by simp
next
  case (Cons d ds)
  show ?case
  proof (cases "dispatch d")
    case (Inl e)
    with Cons.prems have "[pipe_recv d] = pre @ pipe_recv (SHUTDOWN, args) # post" "r = Some e"
      by auto
    then show ?thesis using Inl by (cases pre) auto
  next
    case (Inr c)
    obtain tr0 r0 where d0: "drain ds = (tr0, r0)" by (cases "drain ds")
    with Cons.prems Inr have tr: "pipe_recv d # service c # tr0 = pre @ pipe_recv (SHUTDOWN, args) # post"
      and r: "r = r0" by auto
    show ?thesis
    proof (cases pre)
      case Nil
      with tr Inr show ?thesis by auto
    next
      case (Cons a pre1)
      note c1 = this
      show ?thesis
      proof (cases pre1)
        case Nil
        with tr c1 show ?thesis by auto
      next
        case (Cons b pre2)
        with tr c1 have "tr0 = pre2 @ pipe_recv (SHUTDOWN, args) # post" by auto
        with Cons.IH[OF d0] r show ?thesis by auto
      qed
    qed
  qed
qed

lemma drain_None_no_shutdown:
  "drain ds = (tr, None) \<Longrightarrow> pipe_recv (SHUTDOWN, args) \<notin> set tr"
proof
  assume d: "drain ds = (tr, None)" and "pipe_recv (SHUTDOWN, args) \<in> set tr"
  then obtain pre post where "tr = pre @ pipe_recv (SHUTDOWN, args) # post"
    by (auto simp: in_set_conv_decomp)
  from drain_shutdown[OF d this] show False by simp
qed

lemma main_loop_shutdown:
  "main_loop h ts = (tr, res) \<Longrightarrow> tr = pre @ pipe_recv (SHUTDOWN, args) # post
     \<Longrightarrow> post = [] \<and> res = Inl SystemExit"
proof (induction ts arbitrary: h tr res pre)
  case Nil
  then show ?case by simp
next
  case (Cons t ts)
  obtain trd rd where d: "drain (queued t) = (trd, rd)" by (cases "drain (queued t)")
  show ?case
  proof (cases rd)
    case (Some e)
    with d Cons.prems have "tr = trd" "res = Inl e" by auto
    with drain_shutdown[OF d] Cons.prems(2) Some show ?thesis by auto
  next
    case None
    note dn = d[unfolded None]
    define r where "r = reply t h"
    define h1 where "h1 = (if new_data_returned r then new_hash r else h)"
    define mid where "mid = (if new_data_returned r
        then [return_data h r, pipe_send_frame (data_was_raw r) (new_data r) (data_uuid r), sleep]
        else [return_data h r, sleep])"
    obtain tr1 res1 where m: "main_loop h1 ts = (tr1, res1)" by (cases "main_loop h1 ts")
    have eq: "tr = (trd @ mid) @ tr1" "res = res1"
      using Cons.prems(1) dn m by (auto simp: r_def h1_def mid_def Let_def split: if_splits)
    have "pipe_recv (SHUTDOWN, args) \<notin> set (trd @ mid)"
      using drain_None_no_shutdown[OF dn] by (auto simp: mid_def)
    with split_after_prefix[of "trd @ mid" tr1 pre "pipe_recv (SHUTDOWN, args)" post] eq Cons.prems(2)
    obtain pre' where "tr1 = pre' @ pipe_recv (SHUTDOWN, args) # post" by auto
    from Cons.IH[OF m this] eq show ?thesis by simp
  qed
qed

text \<open>
  Claim C5. When the worker loop receives a shutdown command, the loop ends there with
  \<open>SystemExit\<close>: the receipt of the shutdown message is the last event of the worker's trace,
  so no command queued behind it is dispatched and no data pull, frame push or sleep follows.
\<close>

theorem shutdown_ends_worker_loop:
  assumes "connect_acquisition_service use_ssh ts = (tr, res)"
    and "tr = pre @ pipe_recv (SHUTDOWN, args) # post"
  shows "post = [] \<and> res = Inl SystemExit"
proof -
  obtain tr1 res1 where m: "main_loop PyNone ts = (tr1, res1)" by (cases "main_loop PyNone ts")
  define start where "start = (if use_ssh then [rpyc_connect] else [stop_nginx, flash_fpga]) @ [pipe_send_ready]"
  have eq: "tr = start @ tr1" "res = res1"
    using assms(1) m by (auto simp: connect_acquisition_service_def start_def)
  have "pipe_recv (SHUTDOWN, args) \<notin> set start" by (auto simp: start_def)
  with split_after_prefix[of start tr1 pre "pipe_recv (SHUTDOWN, args)" post] eq assms(2)
  obtain pre' where "tr1 = pre' @ pipe_recv (SHUTDOWN, args) # post" by auto
  from main_loop_shutdown[OF m this] eq show ?thesis by simp
qed

text \<open>
  An instance: a pause command is queued behind the shutdown and the data source has new
  data, yet the trace ends at the shutdown.
\<close>

theorem shutdown_ends_worker_loop_witness:
  "connect_acquisition_service False
     [\<lparr>queued = [(SET_SWEEP_SPEED, [PyInt 3]), (SHUTDOWN, []), (PAUSE_ACQUISIITON, [PyBool True])],
       reply = (\<lambda>h. \<lparr>new_data_returned = True, new_hash = PyInt 1, data_was_raw = PyBool False,
                      new_data = PyInt 5, data_uuid = PyInt 42\<rparr>)\<rparr>]
   = ([stop_nginx, flash_fpga, pipe_send_ready, pipe_recv (SET_SWEEP_SPEED, [PyInt 3]),
       service (exposed_set_sweep_speed (PyInt 3))] @ pipe_recv (SHUTDOWN, []) # [],
      Inl SystemExit)
   \<and> ([]::worker_event list) = [] \<and> (Inl SystemExit :: exn + pyobj) = Inl SystemExit"
proof -
  have run: "connect_acquisition_service False
     [\<lparr>queued = [(SET_SWEEP_SPEED, [PyInt 3]), (SHUTDOWN, []), (PAUSE_ACQUISIITON, [PyBool True])],
       reply = (\<lambda>h. \<lparr>new_data_returned = True, new_hash = PyInt 1, data_was_raw = PyBool False,
                      new_data = PyInt 5, data_uuid = PyInt 42\<rparr>)\<rparr>]
   = ([stop_nginx, flash_fpga, pipe_send_ready, pipe_recv (SET_SWEEP_SPEED, [PyInt 3]),
       service (exposed_set_sweep_speed (PyInt 3))] @ pipe_recv (SHUTDOWN, []) # [],
      Inl SystemExit)"
    by (simp add: connect_acquisition_service_def)
  from shutdown_ends_worker_loop [OF run refl] run show ?thesis by simp
qed

subsection \<open>Frames follow new data\<close>













subsection \<open>Command tags\<close>




subsection \<open>The restore action\<close>

text \<open>
  Claim C9 as stated fails: after one explicit call of \<open>shutdown\<close>, with the process exiting
  before the worker has exited, the exit hook runs \<open>shutdown\<close> again on the open pipe, and
  the nginx service is started twice in that lifetime.
\<close>

theorem restore_runs_twice_after_explicit_shutdown:
  "count_list (supervisor_lifetime [owner_calls call_shutdown]) start_nginx = 2"
  by (simp add: supervisor_lifetime_def init_controller_def run_exit_hooks_def shutdown_def
      send_def events_of_def)

text \<open>
  A run of \<open>shutdown\<close> after the worker has exited raises \<open>BrokenPipeError\<close> in the send and
  does not reach \<open>start_nginx()\<close>: when the worker dies and the process then exits, the
  service is not started at all, and when the worker exits between an explicit call and the
  exit of the process, the exit hook adds nothing to the one start of the explicit call.
\<close>

lemma restore_skipped_after_worker_exit:
  "shutdown (worker_exit (fst init_controller)) = Inl BrokenPipeError
   \<and> count_list (supervisor_lifetime [worker_exits]) start_nginx = 0
   \<and> count_list (supervisor_lifetime [owner_calls call_shutdown, worker_exits]) start_nginx = 1"
  by (simp add: supervisor_lifetime_def init_controller_def run_exit_hooks_def shutdown_def
      send_def events_of_def worker_exit_def)

lemma count_start_nginx_invoke:
  "parent_conn c = Some k \<Longrightarrow> peer_open k \<Longrightarrow>
   count_list (events_of (invoke c i)) start_nginx = (if i = call_shutdown then 1 else 0)"
  by (cases i)
     (simp_all add: pause_acquisition_def continue_acquisition_def shutdown_def set_sweep_speed_def
        set_lock_status_def fetch_additional_signals_def set_csr_def set_iir_csr_def
        set_raw_acquisition_def set_dual_channel_def send_def events_of_def)

lemma count_list_append: "count_list (xs @ ys) a = count_list xs a + count_list ys a"
  by (induction xs) auto

lemma run_lifetime_worker_alive:
  assumes "worker_exits \<notin> set es" and "parent_conn c = Some k" and "peer_open k"
  shows "fst (run_lifetime c es) = c
       \<and> count_list (snd (run_lifetime c es)) start_nginx
           = count_list es (owner_calls call_shutdown)"
  using assms(1)
proof (induction es)
  case Nil
  then show ?case by simp
next
  case (Cons e es)
  from Cons.prems obtain i where e: "e = owner_calls i" by (cases e) auto
  from Cons.prems have "worker_exits \<notin> set es" by simp
  from Cons.IH[OF this] show ?case
    by (cases "run_lifetime c es")
       (auto simp: e count_list_append count_start_nginx_invoke[OF assms(2,3)])
qed

text \<open>
  Claim C9, amended. A run of \<open>shutdown\<close> on a pipe whose other end is open sends the
  shutdown command and starts the nginx service once. In a lifetime in which the worker does
  not exit before the process does, the service is started once by the exit hook that
  \<open>__init__\<close> registered and once more for every explicit call of \<open>shutdown\<close>: exactly once
  when \<open>shutdown\<close> is never called explicitly.
\<close>

theorem restore_runs_once_per_shutdown_while_worker_alive:
  assumes "worker_exits \<notin> set es"
  shows "shutdown (fst init_controller) = Inr [conn_send (SHUTDOWN, []), start_nginx]
       \<and> count_list (supervisor_lifetime es) start_nginx
           = Suc (count_list es (owner_calls call_shutdown))"
proof -
  let ?c = "\<lparr>parent_conn = Some \<lparr>peer_open = True\<rparr>\<rparr>"
  have h: "parent_conn ?c = Some \<lparr>peer_open = True\<rparr>" and o: "peer_open \<lparr>peer_open = True\<rparr>"
    by simp_all
  obtain c' out where r: "run_lifetime ?c es = (c', out)" by (cases "run_lifetime ?c es")
  from run_lifetime_worker_alive[OF assms h o] r
  have c': "c' = ?c" and n: "count_list out start_nginx = count_list es (owner_calls call_shutdown)"
    by simp_all
  have "count_list (run_exit_hooks ?c [shutdown_hook]) start_nginx = 1"
    by (simp add: run_exit_hooks_def shutdown_def send_def events_of_def)
  with r c' n have "count_list (supervisor_lifetime es) start_nginx
      = Suc (count_list es (owner_calls call_shutdown))"
    by (simp add: supervisor_lifetime_def init_controller_def count_list_append)
  moreover have "shutdown (fst init_controller) = Inr [conn_send (SHUTDOWN, []), start_nginx]"
    by (simp add: init_controller_def shutdown_def send_def)
  ultimately show ?thesis by simp
qed

text \<open>
  Two lifetimes in which the worker stays alive: one without an explicit \<open>shutdown\<close>, where
  the service is started once, and one with a command and an explicit \<open>shutdown\<close>, where it
  is started twice.
\<close>

theorem restore_runs_once_per_shutdown_while_worker_alive_witness:
  "worker_exits \<notin> set ([] :: lifetime_event list)
   \<and> count_list (supervisor_lifetime []) start_nginx = 1
   \<and> supervisor_lifetime [] = [conn_send (SHUTDOWN, []), start_nginx]
   \<and> worker_exits \<notin> set [owner_calls (call_set_sweep_speed (PyInt 3)), owner_calls call_shutdown]
   \<and> count_list (supervisor_lifetime
         [owner_calls (call_set_sweep_speed (PyInt 3)), owner_calls call_shutdown]) start_nginx = 2"
proof -
  have a: "worker_exits \<notin> set ([] :: lifetime_event list)" by simp
  have b: "worker_exits \<notin> set [owner_calls (call_set_sweep_speed (PyInt 3)), owner_calls call_shutdown]"
    by simp
  have c: "supervisor_lifetime [] = [conn_send (SHUTDOWN, []), start_nginx]"
    by (simp add: supervisor_lifetime_def init_controller_def run_exit_hooks_def shutdown_def
        send_def events_of_def)
  from restore_runs_once_per_shutdown_while_worker_alive [OF a]
    restore_runs_once_per_shutdown_while_worker_alive [OF b] a b c
  show ?thesis by simp
qed

section \<open>Properties of the mirror\<close>

text \<open>The definitions that running a statement unfolds.\<close>

lemmas py_defs = py_bind_def py_return_def py_raise_def emit_def getattr_self_def remote_root_def
  async_call_def async_ready_def async_value_def setattr_def attributes_locked_def

lemma init_example:
  "init (PyStr ''u1'') True example_inventory [(''speed'', PyInt 10), (''status'', PyStr ''idle'')]
     = (Inr (), example_mirror)"
  by (simp add: init_def example_inventory_def example_mirror_def example_status_def py_defs
      check_for_changed_parameters_def request_changed_parameters_def
      register_pending_listeners_def consume_changed_parameters_def
      finish_listener_registering_def update_cache_at_def update_cache_def)

lemma example_mirror_locked: "attributes_locked example_mirror"
  by (simp add: attributes_locked_def example_mirror_def)

subsection \<open>The attribute lock\<close>



text \<open>
  Claim C4 as stated fails: \<open>_callbacks\<close> is not a name of the frozen parameter set of the
  example mirror, yet assigning to it raises nothing and replaces the callback dictionary.
\<close>

theorem underscore_name_outside_parameters_is_assignable:
  "init (PyStr ''u1'') True example_inventory [(''speed'', PyInt 10), (''status'', PyStr ''idle'')]
     = (Inr (), example_mirror)
   \<and> attributes_locked example_mirror
   \<and> map fst (iter (self_dict example_mirror)) = [''speed'', ''status'']
   \<and> fst (setattr ''_callbacks'' (Val PyNone) example_mirror) = Inr ()
   \<and> map_of (self_dict example_mirror) ''_callbacks'' = Some (CallbackDict [])
   \<and> map_of (self_dict (snd (setattr ''_callbacks'' (Val PyNone) example_mirror))) ''_callbacks''
       = Some (Val PyNone)"
  by (simp add: init_example) (simp add: example_mirror_def setattr_def attributes_locked_def)

text \<open>
  Claim C4, amended. On a mirror whose attributes are locked, assigning to an attribute whose
  name does not start with an underscore, a parameter of the frozen set or not, raises
  \<open>AttributeError\<close> and leaves the whole state of the mirror as it was.
\<close>

theorem locked_assignment_raises:
  assumes "attributes_locked w" and "\<not> startswith n ''_''"
  shows "setattr n v w = (Inl AttributeError, w)"
  using assms by (simp add: setattr_def)

text \<open>An unknown name and the name of a handle, on the example mirror.\<close>

theorem locked_assignment_raises_witness:
  "attributes_locked example_mirror \<and> \<not> startswith ''gain'' ''_'' \<and> \<not> startswith ''speed'' ''_''
   \<and> setattr ''gain'' (Val (PyInt 1)) example_mirror = (Inl AttributeError, example_mirror)
   \<and> setattr ''speed'' (Val (PyInt 1)) example_mirror = (Inl AttributeError, example_mirror)"
proof -
  note l = example_mirror_locked
  have s: "\<not> startswith ''gain'' ''_''" "\<not> startswith ''speed'' ''_''" by simp_all
  from locked_assignment_raises [OF l s(1), of "Val (PyInt 1)"]
    locked_assignment_raises [OF l s(2), of "Val (PyInt 1)"] l s
  show ?thesis by simp
qed

subsection \<open>Writing a value\<close>

text \<open>
  Claim C8. On a mirror whose attribute \<open>remote\<close> is the connection, writing the value of a
  handle makes one call \<open>exposed_set_param\<close> with the handle's name and the value, and
  changes nothing else: the attributes of the mirror (the handles with their caches, the
  callback dictionary, the pending list, the markers) and the outstanding calls stay as they are.
\<close>

theorem write_only_calls_server:
  assumes "map_of (self_dict w) ''remote'' = Some RemoteRoot"
  shows "value_set p v w = (Inr (), w\<lparr>trace := trace w @ [exposed_set_param (name p) v]\<rparr>)"
  using assms by (simp add: value_set_def py_defs)

text \<open>Writing \<open>status\<close> on the example mirror.\<close>

theorem write_only_calls_server_witness:
  "map_of (self_dict example_mirror) ''remote'' = Some RemoteRoot
   \<and> value_set example_status (PyStr ''locked'') example_mirror
       = (Inr (), example_mirror\<lparr>trace := trace example_mirror
                                     @ [exposed_set_param ''status'' (PyStr ''locked'')]\<rparr>)
   \<and> self_dict (snd (value_set example_status (PyStr ''locked'') example_mirror))
       = self_dict example_mirror"
proof -
  have r: "map_of (self_dict example_mirror) ''remote'' = Some RemoteRoot"
    by (simp add: example_mirror_def)
  from write_only_calls_server [OF r, of example_status "PyStr ''locked''"] r
  show ?thesis by (simp add: example_status_def)
qed

subsection \<open>Registering a callback\<close>

text \<open>
  A handle has no attribute \<open>_callbacks\<close>, so the first condition of \<open>add_callback\<close> raises
  \<open>AttributeError\<close> before any statement of the method has run.
\<close>

lemma no_callbacks_attribute: "getattr_param p ''_callbacks'' w = (Inl AttributeError, w)"
  by (simp add: getattr_param_def instance_attributes_def class_attributes_def split: option.splits)

lemma add_callback_raises: "add_callback p f b w = (Inl AttributeError, w)"
  by (simp add: add_callback_def py_bind_def no_callbacks_attribute)

text \<open>
  Claim C3, on the scenario of the specification: on the mirror built from the inventory with
  \<open>speed\<close> and \<open>status\<close>, \<open>add_callback\<close> on the handle \<open>status\<close> raises
  \<open>AttributeError\<close> and leaves the mirror as it was. Nothing is appended to the callback
  list or to the pending list, and the callback is not called.
\<close>

theorem add_callback_raises_on_status:
  "init (PyStr ''u1'') True example_inventory [(''speed'', PyInt 10), (''status'', PyStr ''idle'')]
     = (Inr (), example_mirror)
   \<and> map_of (self_dict example_mirror) ''status'' = Some (Param example_status)
   \<and> add_callback example_status 7 True example_mirror = (Inl AttributeError, example_mirror)"
  by (simp add: init_example add_callback_raises) (simp add: example_mirror_def)

subsection \<open>A batch of changes\<close>

lemma is_handle_update_cache_at:
  "is_handle w k \<Longrightarrow> is_handle (update_cache_at n p v w) k"
  by (auto simp: is_handle_def update_cache_at_def update_conv' split: option.splits obj.splits)

lemma cache_backed_update_cache_at:
  "map_of (self_dict w) n = Some (Param p) \<Longrightarrow>
   cache_backed (update_cache_at n p v w) k = cache_backed w k"
  by (auto simp: cache_backed_def update_cache_at_def update_cache_def update_conv')

lemma cache_events_update_cache_at:
  "map_of (self_dict w) n = Some (Param p) \<Longrightarrow>
   cache_events (update_cache_at n p v w) q = cache_events w q"
  by (simp add: cache_events_def cache_backed_update_cache_at)

lemma after_batch_step_cached:
  "map_of d n = Some (Param p) \<Longrightarrow> use_cache p \<Longrightarrow>
   after_batch q k (((map_of d)(n \<mapsto> Param (update_cache p v))) k)
     = after_batch ((n, v) # q) k (map_of d k)"
  by (auto simp: after_batch_def update_cache_def map_add_def split: option.splits obj.splits)

lemma after_batch_step_uncached:
  "map_of d n = Some (Param p) \<Longrightarrow> \<not> use_cache p \<Longrightarrow>
   after_batch q k (map_of d k) = after_batch ((n, v) # q) k (map_of d k)"
  by (auto simp: after_batch_def update_cache_def map_add_def split: option.splits obj.splits)

lemma update_caches_result:
  "\<forall>(n, v)\<in>set q. is_handle w n \<Longrightarrow>
   \<exists>d'. update_caches q w = (Inr (), w\<lparr>self_dict := d', trace := trace w @ cache_events w q\<rparr>)
       \<and> (\<forall>k. map_of d' k = after_batch q k (map_of (self_dict w) k))"
proof (induction q arbitrary: w)
  case Nil
  have "w\<lparr>self_dict := self_dict w, trace := trace w\<rparr> = w" by simp
  then show ?case
    by (intro exI[of _ "self_dict w"]) (auto simp: cache_events_def after_batch_def split: option.splits obj.splits)
next
  case (Cons x q)
  obtain n v where x: "x = (n, v)" by (cases x)
  from Cons.prems x obtain p where p: "map_of (self_dict w) n = Some (Param p)"
    by (auto simp: is_handle_def split: option.splits obj.splits)
  from Cons.prems have rest: "\<forall>(n, v)\<in>set q. is_handle w n" by simp
  show ?case
  proof (cases "use_cache p")
    case True
    let ?w1 = "update_cache_at n p v w"
    from rest have "\<forall>(n, v)\<in>set q. is_handle ?w1 n"
      by (auto intro: is_handle_update_cache_at)
    from Cons.IH[OF this] obtain d' where
      r: "update_caches q ?w1 = (Inr (), ?w1\<lparr>self_dict := d', trace := trace ?w1 @ cache_events ?w1 q\<rparr>)"
      and m: "\<forall>k. map_of d' k = after_batch q k (map_of (self_dict ?w1) k)" by blast
    have cb: "cache_backed w n" using p True by (simp add: cache_backed_def)
    have tr: "trace ?w1 @ cache_events ?w1 q = trace w @ cache_events w (x # q)"
      using cb by (simp add: cache_events_update_cache_at[OF p] x)
         (simp add: update_cache_at_def cache_events_def)
    have st: "?w1\<lparr>self_dict := d', trace := trace w @ cache_events w (x # q)\<rparr>
       = w\<lparr>self_dict := d', trace := trace w @ cache_events w (x # q)\<rparr>"
      by (simp add: update_cache_at_def)
    have "update_caches (x # q) w = (Inr (), w\<lparr>self_dict := d', trace := trace w @ cache_events w (x # q)\<rparr>)"
      using p True r tr st by (simp add: x getattr_self_def)
    moreover have "\<forall>k. map_of d' k = after_batch (x # q) k (map_of (self_dict w) k)"
      using m after_batch_step_cached[OF p True, of q _ v]
      by (simp add: x update_cache_at_def update_conv')
    ultimately show ?thesis by blast
  next
    case False
    from Cons.IH[OF rest] obtain d' where
      r: "update_caches q w = (Inr (), w\<lparr>self_dict := d', trace := trace w @ cache_events w q\<rparr>)"
      and m: "\<forall>k. map_of d' k = after_batch q k (map_of (self_dict w) k)" by blast
    have cb: "\<not> cache_backed w n" using p False by (simp add: cache_backed_def)
    have "update_caches (x # q) w = (Inr (), w\<lparr>self_dict := d', trace := trace w @ cache_events w (x # q)\<rparr>)"
      using p False r cb by (simp add: x getattr_self_def cache_events_def)
    moreover have "\<forall>k. map_of d' k = after_batch (x # q) k (map_of (self_dict w) k)"
      using m after_batch_step_uncached[OF p False, of q _ v] by (simp add: x)
    ultimately show ?thesis by blast
  qed
qed

lemma call_callbacks_result:
  "map_of (self_dict w) ''_callbacks'' = Some (CallbackDict cbs) \<Longrightarrow>
   call_callbacks q w = (Inr (), w\<lparr>trace := trace w @ callback_events w q\<rparr>)"
proof (induction q arbitrary: w)
  case Nil
  then show ?case by (simp add: callback_events_def)
next
  case (Cons x q)
  obtain n v where x: "x = (n, v)" by (cases x)
  let ?fs = "case map_of cbs n of None \<Rightarrow> [] | Some fs \<Rightarrow> fs"
  let ?w1 = "w\<lparr>trace := trace w @ map (\<lambda>f. callback_called f v) ?fs\<rparr>"
  have c1: "map_of (self_dict ?w1) ''_callbacks'' = Some (CallbackDict cbs)" using Cons.prems by simp
  have ce: "callback_events ?w1 q = callback_events w q"
    by (simp add: callback_events_def callbacks_of_def)
  have "call_callbacks (x # q) w = call_callbacks q ?w1"
    using Cons.prems by (simp add: x getattr_self_def split: option.splits)
  also have "\<dots> = (Inr (), ?w1\<lparr>trace := trace ?w1 @ callback_events ?w1 q\<rparr>)"
    by (rule Cons.IH[OF c1])
  also have "?w1\<lparr>trace := trace ?w1 @ callback_events ?w1 q\<rparr> = w\<lparr>trace := trace w @ callback_events w (x # q)\<rparr>"
    using Cons.prems by (simp add: ce) (simp add: callback_events_def callbacks_of_def x)
  finally show ?case .
qed

lemma marker_cases:
  assumes "marker_ok r w a"
  obtains "map_of (self_dict w) a = Some (Val PyNone)"
  | i where "map_of (self_dict w) a = Some (Async i)" "i < length (futures w)"
      "request (futures w ! i) = r"
  using assms
  by (auto simp: marker_ok_def split: option.splits obj.splits pyobj.splits)

lemma mirror_okD:
  assumes "mirror_ok w"
  shows "map_of (self_dict w) ''remote'' = Some RemoteRoot"
    and "\<exists>u. map_of (self_dict w) ''uuid'' = Some u"
    and "marker_ok get_changed_parameters_queue w ''_async_changed_parameters_queue''"
    and "marker_ok register_remote_listeners w ''_async_listener_registering''"
    and "\<exists>l. map_of (self_dict w) ''_listeners_pending_remote_registration'' = Some (StrList l)"
    and "\<exists>d. map_of (self_dict w) ''_callbacks'' = Some (CallbackDict d)"
  using assms by (auto simp: mirror_ok_def split: option.splits obj.splits)

lemma register_pending_listeners_ok:
  assumes ok: "mirror_ok w"
  shows "\<exists>w1 pre ext. register_pending_listeners w = (Inr (), w1)
           \<and> trace w1 = trace w @ pre \<and> (\<forall>e\<in>set pre. is_request e)
           \<and> futures w1 = futures w @ ext \<and> remote_values w1 = remote_values w
           \<and> marker_ok register_remote_listeners w1 ''_async_listener_registering''
           \<and> (\<exists>l. map_of (self_dict w1) ''_listeners_pending_remote_registration'' = Some (StrList l))
           \<and> (\<forall>k. k \<noteq> ''_async_listener_registering''
                  \<longrightarrow> k \<noteq> ''_listeners_pending_remote_registration''
                  \<longrightarrow> map_of (self_dict w1) k = map_of (self_dict w) k)"
proof -
  from mirror_okD[OF ok] obtain u l where
    r: "map_of (self_dict w) ''remote'' = Some RemoteRoot"
    and u: "map_of (self_dict w) ''uuid'' = Some u"
    and m: "marker_ok register_remote_listeners w ''_async_listener_registering''"
    and l: "map_of (self_dict w) ''_listeners_pending_remote_registration'' = Some (StrList l)"
    by blast
  from m show ?thesis
  proof (cases rule: marker_cases)
    case 1
    show ?thesis
    proof (cases "l = []")
      case True
      have "register_pending_listeners w = (Inr (), w)"
        using 1 l True by (simp add: register_pending_listeners_def py_defs)
      with m l show ?thesis by (intro exI[of _ w] exI[of _ "[]"]) simp
    next
      case False
      let ?w1 = "w\<lparr>self_dict :=
            AList.update ''_listeners_pending_remote_registration'' (StrList [])
              (AList.update ''_async_listener_registering'' (Async (length (futures w))) (self_dict w)),
          futures := futures w @ [\<lparr>request = register_remote_listeners, fut_ready = False, fut_value = []\<rparr>],
          trace := trace w @ [exposed_register_remote_listeners (length (futures w)) u l]\<rparr>"
      have "register_pending_listeners w = (Inr (), ?w1)"
        using 1 l False r u
        by (simp add: register_pending_listeners_def py_defs copy_list_def pending_clear_def update_conv')
      moreover have "marker_ok register_remote_listeners ?w1 ''_async_listener_registering''"
        by (simp add: marker_ok_def update_conv')
      ultimately show ?thesis
        by (intro exI[of _ ?w1] exI[of _ "[exposed_register_remote_listeners (length (futures w)) u l]"]
            exI[of _ "[\<lparr>request = register_remote_listeners, fut_ready = False, fut_value = []\<rparr>]"])
           (simp add: update_conv')
    qed
  next
    case (2 i)
    have "register_pending_listeners w = (Inr (), w)"
      using 2 by (simp add: register_pending_listeners_def py_defs)
    with m l show ?thesis by (intro exI[of _ w] exI[of _ "[]"]) simp
  qed
qed

lemma is_handle_iff: "is_handle w n = (\<exists>p. map_of (self_dict w) n = Some (Param p))"
  by (auto simp: is_handle_def split: option.splits obj.splits)

lemma after_batch_other: "\<not> (\<exists>p. x = Some (Param p)) \<Longrightarrow> after_batch q k x = x"
  by (auto simp: after_batch_def split: option.splits obj.splits)

lemma consume_changed_parameters_ok:
  assumes r: "map_of (self_dict w) ''remote'' = Some RemoteRoot"
    and u: "map_of (self_dict w) ''uuid'' = Some u"
    and c: "map_of (self_dict w) ''_callbacks'' = Some (CallbackDict cbs)"
    and m: "map_of (self_dict w) ''_async_changed_parameters_queue'' = Some (Async i)"
    and i: "i < length (futures w)" "fut_ready (futures w ! i)"
    and h: "\<forall>(n, v)\<in>set (fut_value (futures w ! i)). is_handle w n"
  shows "\<exists>d'. consume_changed_parameters w =
           (Inr (), w\<lparr>self_dict := d',
                     futures := futures w @ [\<lparr>request = get_changed_parameters_queue, fut_ready = False, fut_value = []\<rparr>],
                     trace := trace w @ [exposed_get_changed_parameters_queue (length (futures w)) u]
                                @ cache_events w (fut_value (futures w ! i))
                                @ callback_events w (fut_value (futures w ! i))\<rparr>)
         \<and> (\<forall>k. k \<noteq> ''_async_changed_parameters_queue'' \<longrightarrow>
                 map_of d' k = after_batch (fut_value (futures w ! i)) k (map_of (self_dict w) k))
         \<and> map_of d' ''_async_changed_parameters_queue'' = Some (Async (length (futures w)))"
proof -
  let ?q = "fut_value (futures w ! i)"
  let ?f = "\<lparr>request = get_changed_parameters_queue, fut_ready = False, fut_value = []\<rparr>"
  let ?wA = "w\<lparr>futures := futures w @ [?f],
               trace := trace w @ [exposed_get_changed_parameters_queue (length (futures w)) u],
               self_dict := AList.update ''_async_changed_parameters_queue'' (Async (length (futures w))) (self_dict w)\<rparr>"
  have step: "consume_changed_parameters w
      = py_bind (update_caches ?q) (\<lambda>_. call_callbacks ?q) ?wA"
    using r u m i
    by (simp add: consume_changed_parameters_def py_defs)
  have hA: "\<forall>(n, v)\<in>set ?q. is_handle ?wA n"
    using h m by (fastforce simp: is_handle_iff update_conv')
  from update_caches_result[OF hA] obtain d' where
    uc: "update_caches ?q ?wA = (Inr (), ?wA\<lparr>self_dict := d', trace := trace ?wA @ cache_events ?wA ?q\<rparr>)"
    and md: "\<forall>k. map_of d' k = after_batch ?q k (map_of (self_dict ?wA) k)" by blast
  let ?wB = "?wA\<lparr>self_dict := d', trace := trace ?wA @ cache_events ?wA ?q\<rparr>"
  have cA: "\<And>k. cache_backed ?wA k = cache_backed w k"
    using m by (auto simp: cache_backed_def update_conv')
  have ceA: "cache_events ?wA ?q = cache_events w ?q"
    by (simp only: cache_events_def cA)
  have cB: "map_of (self_dict ?wB) ''_callbacks'' = Some (CallbackDict cbs)"
    using md c by (simp add: update_conv' after_batch_other)
  have cd: "map_of d' ''_callbacks'' = Some (CallbackDict cbs)"
    using cB by simp
  have cbB: "\<And>w'. map_of (self_dict w') ''_callbacks'' = Some (CallbackDict cbs)
      \<Longrightarrow> callback_events w' ?q = callback_events w ?q"
    using c by (simp add: callback_events_def callbacks_of_def)
  have "consume_changed_parameters w = (Inr (), ?wB\<lparr>trace := trace ?wB @ callback_events ?wB ?q\<rparr>)"
    using step uc call_callbacks_result[OF cB, of ?q] by (simp add: py_bind_def)
  moreover have "?wB\<lparr>trace := trace ?wB @ callback_events ?wB ?q\<rparr>
      = w\<lparr>self_dict := d', futures := futures w @ [?f],
           trace := trace w @ [exposed_get_changed_parameters_queue (length (futures w)) u]
                      @ cache_events w ?q @ callback_events w ?q\<rparr>"
    by (simp add: ceA cbB cd)
  moreover have "\<forall>k. k \<noteq> ''_async_changed_parameters_queue'' \<longrightarrow>
       map_of d' k = after_batch ?q k (map_of (self_dict w) k)"
    using md by (simp add: update_conv')
  moreover have "map_of d' ''_async_changed_parameters_queue'' = Some (Async (length (futures w)))"
    using md by (simp add: update_conv' after_batch_other)
  ultimately show ?thesis by (intro exI[of _ d']) simp
qed

lemma finish_listener_registering_ok:
  assumes "marker_ok register_remote_listeners w ''_async_listener_registering''"
  shows "\<exists>d'. finish_listener_registering w = (Inr (), w\<lparr>self_dict := d'\<rparr>)
           \<and> (\<forall>k. k \<noteq> ''_async_listener_registering'' \<longrightarrow> map_of d' k = map_of (self_dict w) k)
           \<and> marker_ok register_remote_listeners (w\<lparr>self_dict := d'\<rparr>) ''_async_listener_registering''"
  using assms
proof (cases rule: marker_cases)
  case 1
  then have "finish_listener_registering w = (Inr (), w\<lparr>self_dict := self_dict w\<rparr>)"
    by (simp add: finish_listener_registering_def py_defs)
  with assms show ?thesis by (intro exI[of _ "self_dict w"]) simp
next
  case (2 i)
  show ?thesis
  proof (cases "fut_ready (futures w ! i)")
    case True
    with 2 have "finish_listener_registering w
       = (Inr (), w\<lparr>self_dict := AList.update ''_async_listener_registering'' (Val PyNone) (self_dict w)\<rparr>)"
      by (simp add: finish_listener_registering_def py_defs)
    then show ?thesis
      by (intro exI[of _ "AList.update ''_async_listener_registering'' (Val PyNone) (self_dict w)"])
         (simp add: update_conv' marker_ok_def)
  next
    case False
    with 2 have "finish_listener_registering w = (Inr (), w\<lparr>self_dict := self_dict w\<rparr>)"
      by (simp add: finish_listener_registering_def py_defs)
    with assms show ?thesis by (intro exI[of _ "self_dict w"]) simp
  qed
qed

lemma cache_backed_iff:
  "cache_backed w n = (\<exists>p. map_of (self_dict w) n = Some (Param p) \<and> use_cache p)"
  by (auto simp: cache_backed_def split: option.splits obj.splits)

lemma marker_not_param:
  "marker_ok r w a \<Longrightarrow> map_of (self_dict w) a \<noteq> Some (Param p)"
  by (auto simp: marker_ok_def split: option.splits obj.splits)

lemma marker_ok_extend:
  assumes "marker_ok r w a" and "map_of (self_dict w') a = map_of (self_dict w) a"
    and "futures w' = futures w @ ext"
  shows "marker_ok r w' a"
  using assms(1)
proof (cases rule: marker_cases)
  case 1
  with assms(2) show ?thesis by (simp add: marker_ok_def)
next
  case (2 i)
  with assms(2,3) show ?thesis by (simp add: marker_ok_def nth_append)
qed

lemma read_value_cached:
  "map_of (self_dict w) n = Some (Param p) \<Longrightarrow> cached_value p = Some v \<Longrightarrow>
   read_value n w = (Inr v, w)"
  by (simp add: read_value_def value_get_def py_defs)

text \<open>
  Claim C1. Take a mirror in order whose fetch is ready with a batch of names of handles. Then
  \<open>check_for_changed_parameters\<close> returns normally, and what it adds to the trace is: requests
  to the server, then the cache updates for all entries of the batch whose handle uses the cache,
  then the callback calls in the order of the batch. After the call, reading a handle that uses
  the cache and is named in the batch gives the last value that the batch has for its name.
\<close>

theorem poll_updates_caches_before_callbacks:
  assumes ok: "mirror_ok w"
    and m: "map_of (self_dict w) ''_async_changed_parameters_queue'' = Some (Async i)"
    and rdy: "fut_ready (futures w ! i)"
    and q: "fut_value (futures w ! i) = q"
    and h: "\<forall>(n, v)\<in>set q. is_handle w n"
  shows "\<exists>w' pre. check_for_changed_parameters w = (Inr (), w')
           \<and> trace w' = trace w @ pre @ cache_events w q @ callback_events w q
           \<and> (\<forall>e\<in>set pre. is_request e)
           \<and> (\<forall>n v. cache_backed w n \<longrightarrow> map_of (rev q) n = Some v
                  \<longrightarrow> read_value n w' = (Inr v, w'))"
proof -
  let ?Q = "''_async_changed_parameters_queue''"
  let ?R = "''_async_listener_registering''"
  let ?P = "''_listeners_pending_remote_registration''"
  from mirror_okD[OF ok] obtain u l cbs where
    r: "map_of (self_dict w) ''remote'' = Some RemoteRoot"
    and u: "map_of (self_dict w) ''uuid'' = Some u"
    and mq: "marker_ok get_changed_parameters_queue w ?Q"
    and mr: "marker_ok register_remote_listeners w ?R"
    and l: "map_of (self_dict w) ?P = Some (StrList l)"
    and c: "map_of (self_dict w) ''_callbacks'' = Some (CallbackDict cbs)"
    by blast
  from mq m have i: "i < length (futures w)" by (simp add: marker_ok_def)
  \<comment> \<open>lines 188 to 195: a fetch is under way, nothing to do\<close>
  have p1: "request_changed_parameters w = (Inr (), w)"
    using m by (simp add: request_changed_parameters_def py_defs)
  \<comment> \<open>lines 197 to 208\<close>
  from register_pending_listeners_ok[OF ok] obtain w1 pre ext l' where
    p2: "register_pending_listeners w = (Inr (), w1)"
    and t1: "trace w1 = trace w @ pre" and pre: "\<forall>e\<in>set pre. is_request e"
    and f1: "futures w1 = futures w @ ext"
    and mr1: "marker_ok register_remote_listeners w1 ?R"
    and l1: "map_of (self_dict w1) ?P = Some (StrList l')"
    and d1: "\<forall>k. k \<noteq> ?R \<longrightarrow> k \<noteq> ?P \<longrightarrow> map_of (self_dict w1) k = map_of (self_dict w) k"
    by (elim exE conjE) (rule that)
  have same: "map_of (self_dict w1) n = Some (Param p)"
    if a: "map_of (self_dict w) n = Some (Param p)" for n p
  proof -
    have "n \<noteq> ?R" using a marker_not_param[OF mr] by auto
    moreover have "n \<noteq> ?P" using a l by auto
    ultimately show ?thesis using d1 a by simp
  qed
  have same': "map_of (self_dict w) n = Some (Param p)"
    if a: "map_of (self_dict w1) n = Some (Param p)" for n p
  proof -
    have "n \<noteq> ?R" using a marker_not_param[OF mr1] by auto
    moreover have "n \<noteq> ?P" using a l1 by auto
    ultimately show ?thesis using d1 a by simp
  qed
  have cb1: "\<And>k. cache_backed w1 k = cache_backed w k"
    unfolding cache_backed_iff using same same' by blast
  have ce1: "cache_events w1 q = cache_events w q"
    by (simp only: cache_events_def cb1)
  have r1: "map_of (self_dict w1) ''remote'' = Some RemoteRoot" using d1 r by simp
  have u1: "map_of (self_dict w1) ''uuid'' = Some u" using d1 u by simp
  have c1: "map_of (self_dict w1) ''_callbacks'' = Some (CallbackDict cbs)" using d1 c by simp
  have m1: "map_of (self_dict w1) ?Q = Some (Async i)" using d1 m by simp
  have i1: "i < length (futures w1)" "fut_ready (futures w1 ! i)" "fut_value (futures w1 ! i) = q"
    using i rdy q f1 by (simp_all add: nth_append)
  have cbe1: "callback_events w1 q = callback_events w q"
    using c c1 by (simp add: callback_events_def callbacks_of_def)
  have h1: "\<forall>(n, v)\<in>set (fut_value (futures w1 ! i)). is_handle w1 n"
    using h same by (fastforce simp: i1 is_handle_iff)
  \<comment> \<open>lines 210 to 235\<close>
  from consume_changed_parameters_ok[OF r1 u1 c1 m1 i1(1,2) h1] obtain d2 where
    p3: "consume_changed_parameters w1 =
           (Inr (), w1\<lparr>self_dict := d2,
                      futures := futures w1 @ [\<lparr>request = get_changed_parameters_queue, fut_ready = False, fut_value = []\<rparr>],
                      trace := trace w1 @ [exposed_get_changed_parameters_queue (length (futures w1)) u]
                                 @ cache_events w1 q @ callback_events w1 q\<rparr>)"
    and d2: "\<forall>k. k \<noteq> ?Q \<longrightarrow> map_of d2 k = after_batch q k (map_of (self_dict w1) k)"
    unfolding i1(3) by (elim exE conjE) (rule that)
  let ?w2 = "w1\<lparr>self_dict := d2,
                futures := futures w1 @ [\<lparr>request = get_changed_parameters_queue, fut_ready = False, fut_value = []\<rparr>],
                trace := trace w1 @ [exposed_get_changed_parameters_queue (length (futures w1)) u]
                           @ cache_events w1 q @ callback_events w1 q\<rparr>"
  have "map_of (self_dict ?w2) ?R = map_of (self_dict w1) ?R"
    using d2 marker_not_param[OF mr1] by (simp add: after_batch_other)
  from marker_ok_extend[OF mr1 this, of "[\<lparr>request = get_changed_parameters_queue, fut_ready = False, fut_value = []\<rparr>]"]
  have mr2: "marker_ok register_remote_listeners ?w2 ?R" by simp
  \<comment> \<open>lines 237 to 243\<close>
  from finish_listener_registering_ok[OF mr2] obtain d3 where
    p4: "finish_listener_registering ?w2 = (Inr (), ?w2\<lparr>self_dict := d3\<rparr>)"
    and d3: "\<forall>k. k \<noteq> ?R \<longrightarrow> map_of d3 k = map_of (self_dict ?w2) k"
    by (elim exE conjE) (rule that)
  let ?w3 = "?w2\<lparr>self_dict := d3\<rparr>"
  have run: "check_for_changed_parameters w = (Inr (), ?w3)"
    using p1 p2 p3 p4 by (simp add: check_for_changed_parameters_def py_bind_def)
  have tr: "trace ?w3 = trace w @ (pre @ [exposed_get_changed_parameters_queue (length (futures w1)) u])
              @ cache_events w q @ callback_events w q"
    by (simp add: t1 ce1 cbe1)
  have reqs: "\<forall>e\<in>set (pre @ [exposed_get_changed_parameters_queue (length (futures w1)) u]). is_request e"
    using pre by simp
  have rd: "\<forall>n v. cache_backed w n \<longrightarrow> map_of (rev q) n = Some v \<longrightarrow> read_value n ?w3 = (Inr v, ?w3)"
  proof (intro allI impI)
    fix n v
    assume cb: "cache_backed w n" and last: "map_of (rev q) n = Some v"
    from cb obtain p where p: "map_of (self_dict w) n = Some (Param p)" and uc: "use_cache p"
      by (auto simp: cache_backed_iff)
    have nQ: "n \<noteq> ?Q" using p m by auto
    have nR: "n \<noteq> ?R" using p marker_not_param[OF mr] by auto
    have "map_of d3 n = after_batch q n (map_of (self_dict w1) n)"
      using d3 d2 nQ nR by simp
    also have "\<dots> = Some (Param (update_cache p v))"
      using same[OF p] uc last by (simp add: after_batch_def)
    finally have "map_of (self_dict ?w3) n = Some (Param (update_cache p v))" by simp
    then show "read_value n ?w3 = (Inr v, ?w3)"
      by (rule read_value_cached) (simp add: update_cache_def)
  qed
  from run tr reqs rd show ?thesis by blast
qed

text \<open>
  An instance: the batch names \<open>speed\<close> twice; both cache updates come before the first
  callback, and \<open>speed\<close> reads 12 afterwards.
\<close>

theorem poll_updates_caches_before_callbacks_witness:
  "mirror_ok example_listening
   \<and> fst (check_for_changed_parameters example_listening) = Inr ()
   \<and> trace (snd (check_for_changed_parameters example_listening))
       = [exposed_register_remote_listeners 1 (Val (PyStr ''u1'')) [''status''],
          exposed_get_changed_parameters_queue 2 (Val (PyStr ''u1'')),
          cache_updated ''speed'' (PyInt 11), cache_updated ''speed'' (PyInt 12),
          callback_called 1 (PyInt 11), callback_called 2 (PyStr ''locked''),
          callback_called 3 (PyStr ''locked''), callback_called 1 (PyInt 12)]
   \<and> cache_events example_listening example_batch
       = [cache_updated ''speed'' (PyInt 11), cache_updated ''speed'' (PyInt 12)]
   \<and> callback_events example_listening example_batch
       = [callback_called 1 (PyInt 11), callback_called 2 (PyStr ''locked''),
          callback_called 3 (PyStr ''locked''), callback_called 1 (PyInt 12)]
   \<and> fst (read_value ''speed'' (snd (check_for_changed_parameters example_listening)))
       = Inr (PyInt 12)"
proof -
  have ok: "mirror_ok example_listening"
    by (simp add: mirror_ok_def marker_ok_def example_listening_def)
  have m: "map_of (self_dict example_listening) ''_async_changed_parameters_queue'' = Some (Async 0)"
    by (simp add: example_listening_def)
  have rdy: "fut_ready (futures example_listening ! 0)"
    by (simp add: example_listening_def)
  have q: "fut_value (futures example_listening ! 0) = example_batch"
    by (simp add: example_listening_def)
  have h: "\<forall>(n, v)\<in>set example_batch. is_handle example_listening n"
    by (simp add: example_batch_def is_handle_def example_listening_def)
  have cb: "cache_backed example_listening ''speed''"
    by (simp add: cache_backed_def example_listening_def)
  have last: "map_of (rev example_batch) ''speed'' = Some (PyInt 12)"
    by (simp add: example_batch_def)
  have ce: "cache_events example_listening example_batch
       = [cache_updated ''speed'' (PyInt 11), cache_updated ''speed'' (PyInt 12)]"
    by (simp add: cache_events_def cache_backed_def example_batch_def example_listening_def
        example_status_def)
  have cbe: "callback_events example_listening example_batch
       = [callback_called 1 (PyInt 11), callback_called 2 (PyStr ''locked''),
          callback_called 3 (PyStr ''locked''), callback_called 1 (PyInt 12)]"
    by (simp add: callback_events_def callbacks_of_def example_batch_def example_listening_def)
  from poll_updates_caches_before_callbacks [OF ok m rdy q h] obtain w' pre where
    run: "check_for_changed_parameters example_listening = (Inr (), w')"
    and tr: "trace w' = trace example_listening @ pre @ cache_events example_listening example_batch
               @ callback_events example_listening example_batch"
    and rd: "\<forall>n v. cache_backed example_listening n \<longrightarrow> map_of (rev example_batch) n = Some v
               \<longrightarrow> read_value n w' = (Inr v, w')"
    by (elim exE conjE) (rule that)
  from rd cb last have r12: "read_value ''speed'' w' = (Inr (PyInt 12), w')" by blast
  have full: "trace (snd (check_for_changed_parameters example_listening))
       = [exposed_register_remote_listeners 1 (Val (PyStr ''u1'')) [''status''],
          exposed_get_changed_parameters_queue 2 (Val (PyStr ''u1'')),
          cache_updated ''speed'' (PyInt 11), cache_updated ''speed'' (PyInt 12),
          callback_called 1 (PyInt 11), callback_called 2 (PyStr ''locked''),
          callback_called 3 (PyStr ''locked''), callback_called 1 (PyInt 12)]"
    by (simp add: check_for_changed_parameters_def request_changed_parameters_def
        register_pending_listeners_def consume_changed_parameters_def
        finish_listener_registering_def copy_list_def pending_clear_def py_defs
        example_listening_def example_batch_def example_status_def update_cache_at_def
        update_cache_def)
  from ok run r12 ce cbe full show ?thesis by simp
qed

subsection \<open>At most one outstanding request of each kind\<close>

lemma in_outstanding:
  "j \<in> set (outstanding r w)
     = (j < length (futures w) \<and> request (futures w ! j) = r \<and> \<not> fut_ready (futures w ! j))"
  by (auto simp: outstanding_def)

lemma outstanding_le_one:
  assumes "\<forall>j\<in>set (outstanding r w). map_of (self_dict w) a = Some (Async j)"
  shows "length (outstanding r w) \<le> 1"
proof (cases "outstanding r w")
  case Nil
  then show ?thesis by simp
next
  case (Cons j0 js)
  have d: "distinct (outstanding r w)" by (simp add: outstanding_def)
  from Cons assms have "map_of (self_dict w) a = Some (Async j0)" by simp
  with assms have "\<forall>j\<in>set (outstanding r w). j = j0" by auto
  then have "set (outstanding r w) \<subseteq> {j0}" by auto
  then have "card (set (outstanding r w)) \<le> card {j0}" by (intro card_mono) auto
  with d show ?thesis by (simp add: distinct_card)
qed

lemma requests_tracked_iff:
  "requests_tracked w =
     (\<forall>j<length (futures w). \<not> fut_ready (futures w ! j) \<longrightarrow>
        (request (futures w ! j) = get_changed_parameters_queue \<longrightarrow>
           map_of (self_dict w) ''_async_changed_parameters_queue'' = Some (Async j))
      \<and> (request (futures w ! j) = register_remote_listeners \<longrightarrow>
           map_of (self_dict w) ''_async_listener_registering'' = Some (Async j)))"
  unfolding requests_tracked_def Ball_def in_outstanding by meson

lemma marker_ok_None: "map_of (self_dict w) a = Some (Val PyNone) \<Longrightarrow> marker_ok r w a"
  by (simp add: marker_ok_def)

lemma marker_ok_Async:
  "map_of (self_dict w) a = Some (Async i) \<Longrightarrow> i < length (futures w)
     \<Longrightarrow> request (futures w ! i) = r \<Longrightarrow> marker_ok r w a"
  by (simp add: marker_ok_def)

lemma mirror_okI:
  assumes "map_of (self_dict w) ''remote'' = Some RemoteRoot"
    and "map_of (self_dict w) ''uuid'' \<noteq> None"
    and "marker_ok get_changed_parameters_queue w ''_async_changed_parameters_queue''"
    and "marker_ok register_remote_listeners w ''_async_listener_registering''"
    and "map_of (self_dict w) ''_listeners_pending_remote_registration'' = Some (StrList l)"
    and "map_of (self_dict w) ''_callbacks'' = Some (CallbackDict d)"
  shows "mirror_ok w"
  using assms by (simp add: mirror_ok_def)

lemma marker_ok_frame:
  assumes "marker_ok r w a" and "map_of (self_dict w') a = map_of (self_dict w) a"
    and "futures w' = futures w @ ext"
  shows "marker_ok r w' a"
  by (rule marker_ok_extend[OF assms])

lemma request_changed_parameters_inv:
  assumes "poll_invariant w"
  shows "poll_invariant (snd (request_changed_parameters w))"
proof -
  let ?Q = "''_async_changed_parameters_queue''"
  let ?R = "''_async_listener_registering''"
  from assms have ok: "mirror_ok w" and rt: "requests_tracked w" by (simp_all add: poll_invariant_def)
  from mirror_okD[OF ok] obtain u l cbs where
    r: "map_of (self_dict w) ''remote'' = Some RemoteRoot"
    and u: "map_of (self_dict w) ''uuid'' = Some u"
    and mq: "marker_ok get_changed_parameters_queue w ?Q"
    and mr: "marker_ok register_remote_listeners w ?R"
    and l: "map_of (self_dict w) ''_listeners_pending_remote_registration'' = Some (StrList l)"
    and c: "map_of (self_dict w) ''_callbacks'' = Some (CallbackDict cbs)"
    by (elim exE conjE) (rule that)
  from mq show ?thesis
  proof (cases rule: marker_cases)
    case 1
    let ?f = "\<lparr>request = get_changed_parameters_queue, fut_ready = False, fut_value = []\<rparr>"
    let ?w1 = "w\<lparr>futures := futures w @ [?f],
                 trace := trace w @ [exposed_get_changed_parameters_queue (length (futures w)) u],
                 self_dict := AList.update ?Q (Async (length (futures w))) (self_dict w)\<rparr>"
    have run: "request_changed_parameters w = (Inr (), ?w1)"
      using 1 r u by (simp add: request_changed_parameters_def py_defs)
    have mq1: "marker_ok get_changed_parameters_queue ?w1 ?Q"
      by (rule marker_ok_Async[of _ _ "length (futures w)"]) (simp_all add: update_conv')
    have mr1: "marker_ok register_remote_listeners ?w1 ?R"
      by (rule marker_ok_frame[OF mr, of _ "[?f]"]) (simp_all add: update_conv')
    have ok1: "mirror_ok ?w1"
      by (rule mirror_okI[OF _ _ mq1 mr1]) (simp_all add: update_conv' r u l c)
    have none: "\<forall>j<length (futures w). \<not> fut_ready (futures w ! j) \<longrightarrow>
        request (futures w ! j) \<noteq> get_changed_parameters_queue"
      using rt 1 unfolding requests_tracked_iff by auto
    have rt1: "requests_tracked ?w1"
      unfolding requests_tracked_iff
    proof (intro allI impI)
      fix j assume j: "j < length (futures ?w1)" and nr: "\<not> fut_ready (futures ?w1 ! j)"
      show "(request (futures ?w1 ! j) = get_changed_parameters_queue \<longrightarrow>
              map_of (self_dict ?w1) ?Q = Some (Async j))
          \<and> (request (futures ?w1 ! j) = register_remote_listeners \<longrightarrow>
              map_of (self_dict ?w1) ?R = Some (Async j))"
      proof (cases "j < length (futures w)")
        case True
        with nr have nr0: "\<not> fut_ready (futures w ! j)" by (simp add: nth_append)
        from none True nr0 have "request (futures w ! j) \<noteq> get_changed_parameters_queue" by blast
        moreover from rt True nr0 have "request (futures w ! j) = register_remote_listeners \<longrightarrow>
            map_of (self_dict w) ?R = Some (Async j)"
          unfolding requests_tracked_iff by blast
        ultimately show ?thesis using True by (simp add: nth_append update_conv')
      next
        case False
        with j have "j = length (futures w)" by simp
        then show ?thesis by (simp add: update_conv')
      qed
    qed
    from ok1 rt1 run show ?thesis by (simp add: poll_invariant_def)
  next
    case (2 i)
    then have "request_changed_parameters w = (Inr (), w)"
      by (simp add: request_changed_parameters_def py_defs)
    with assms show ?thesis by simp
  qed
qed

lemma register_pending_listeners_inv:
  assumes "poll_invariant w"
  shows "poll_invariant (snd (register_pending_listeners w))"
proof -
  let ?Q = "''_async_changed_parameters_queue''"
  let ?R = "''_async_listener_registering''"
  let ?P = "''_listeners_pending_remote_registration''"
  from assms have ok: "mirror_ok w" and rt: "requests_tracked w" by (simp_all add: poll_invariant_def)
  from mirror_okD[OF ok] obtain u l cbs where
    r: "map_of (self_dict w) ''remote'' = Some RemoteRoot"
    and u: "map_of (self_dict w) ''uuid'' = Some u"
    and mq: "marker_ok get_changed_parameters_queue w ?Q"
    and mr: "marker_ok register_remote_listeners w ?R"
    and l: "map_of (self_dict w) ?P = Some (StrList l)"
    and c: "map_of (self_dict w) ''_callbacks'' = Some (CallbackDict cbs)"
    by (elim exE conjE) (rule that)
  have noop: "register_pending_listeners w = (Inr (), w) \<Longrightarrow> ?thesis"
    using assms by simp
  from mr show ?thesis
  proof (cases rule: marker_cases)
    case 1
    show ?thesis
    proof (cases "l = []")
      case True
      show ?thesis
        by (rule noop) (use 1 l True in \<open>simp add: register_pending_listeners_def py_defs\<close>)
    next
      case False
      let ?f = "\<lparr>request = register_remote_listeners, fut_ready = False, fut_value = []\<rparr>"
      let ?w1 = "w\<lparr>self_dict := AList.update ?P (StrList [])
                     (AList.update ?R (Async (length (futures w))) (self_dict w)),
                   futures := futures w @ [?f],
                   trace := trace w @ [exposed_register_remote_listeners (length (futures w)) u l]\<rparr>"
      have run: "register_pending_listeners w = (Inr (), ?w1)"
        using 1 l False r u
        by (simp add: register_pending_listeners_def py_defs copy_list_def pending_clear_def update_conv')
      have mr1: "marker_ok register_remote_listeners ?w1 ?R"
        by (rule marker_ok_Async[of _ _ "length (futures w)"]) (simp_all add: update_conv')
      have mq1: "marker_ok get_changed_parameters_queue ?w1 ?Q"
        by (rule marker_ok_frame[OF mq, of _ "[?f]"]) (simp_all add: update_conv')
      have ok1: "mirror_ok ?w1"
        by (rule mirror_okI[OF _ _ mq1 mr1]) (simp_all add: update_conv' r u c)
      have none: "\<forall>j<length (futures w). \<not> fut_ready (futures w ! j) \<longrightarrow>
          request (futures w ! j) \<noteq> register_remote_listeners"
        using rt 1 unfolding requests_tracked_iff by auto
      have rt1: "requests_tracked ?w1"
        unfolding requests_tracked_iff
      proof (intro allI impI)
        fix j assume j: "j < length (futures ?w1)" and nr: "\<not> fut_ready (futures ?w1 ! j)"
        show "(request (futures ?w1 ! j) = get_changed_parameters_queue \<longrightarrow>
                map_of (self_dict ?w1) ?Q = Some (Async j))
            \<and> (request (futures ?w1 ! j) = register_remote_listeners \<longrightarrow>
                map_of (self_dict ?w1) ?R = Some (Async j))"
        proof (cases "j < length (futures w)")
          case True
          with nr have nr0: "\<not> fut_ready (futures w ! j)" by (simp add: nth_append)
          from none True nr0 have "request (futures w ! j) \<noteq> register_remote_listeners" by blast
          moreover from rt True nr0 have "request (futures w ! j) = get_changed_parameters_queue \<longrightarrow>
              map_of (self_dict w) ?Q = Some (Async j)"
            unfolding requests_tracked_iff by blast
          ultimately show ?thesis using True by (simp add: nth_append update_conv')
        next
          case False
          with j have "j = length (futures w)" by simp
          then show ?thesis by (simp add: update_conv')
        qed
      qed
      from ok1 rt1 run show ?thesis by (simp add: poll_invariant_def)
    qed
  next
    case (2 i)
    show ?thesis
      by (rule noop) (use 2 in \<open>simp add: register_pending_listeners_def py_defs\<close>)
  qed
qed

lemma finish_listener_registering_inv:
  assumes "poll_invariant w"
  shows "poll_invariant (snd (finish_listener_registering w))"
proof -
  let ?Q = "''_async_changed_parameters_queue''"
  let ?R = "''_async_listener_registering''"
  from assms have ok: "mirror_ok w" and rt: "requests_tracked w" by (simp_all add: poll_invariant_def)
  from mirror_okD[OF ok] obtain u l cbs where
    r: "map_of (self_dict w) ''remote'' = Some RemoteRoot"
    and u: "map_of (self_dict w) ''uuid'' = Some u"
    and mq: "marker_ok get_changed_parameters_queue w ?Q"
    and mr: "marker_ok register_remote_listeners w ?R"
    and l: "map_of (self_dict w) ''_listeners_pending_remote_registration'' = Some (StrList l)"
    and c: "map_of (self_dict w) ''_callbacks'' = Some (CallbackDict cbs)"
    by (elim exE conjE) (rule that)
  have noop: "finish_listener_registering w = (Inr (), w) \<Longrightarrow> ?thesis"
    using assms by simp
  from mr show ?thesis
  proof (cases rule: marker_cases)
    case 1
    show ?thesis
      by (rule noop) (use 1 in \<open>simp add: finish_listener_registering_def py_defs\<close>)
  next
    case (2 i)
    show ?thesis
    proof (cases "fut_ready (futures w ! i)")
      case False
      show ?thesis
        by (rule noop) (use 2 False in \<open>simp add: finish_listener_registering_def py_defs\<close>)
    next
      case True
      let ?w1 = "w\<lparr>self_dict := AList.update ?R (Val PyNone) (self_dict w)\<rparr>"
      have run: "finish_listener_registering w = (Inr (), ?w1)"
        using 2 True by (simp add: finish_listener_registering_def py_defs)
      have mr1: "marker_ok register_remote_listeners ?w1 ?R"
        by (rule marker_ok_None) (simp add: update_conv')
      have mq1: "marker_ok get_changed_parameters_queue ?w1 ?Q"
        by (rule marker_ok_frame[OF mq, of _ "[]"]) (simp_all add: update_conv')
      have ok1: "mirror_ok ?w1"
        by (rule mirror_okI[OF _ _ mq1 mr1]) (simp_all add: update_conv' r u l c)
      have none: "\<forall>j<length (futures w). \<not> fut_ready (futures w ! j) \<longrightarrow>
          request (futures w ! j) \<noteq> register_remote_listeners"
        using rt 2 True unfolding requests_tracked_iff by auto
      have rt1: "requests_tracked ?w1"
        using rt none unfolding requests_tracked_iff by (simp add: update_conv')
      from ok1 rt1 run show ?thesis by (simp add: poll_invariant_def)
    qed
  qed
qed

lemma server_reply_inv:
  assumes "poll_invariant w"
  shows "poll_invariant (server_reply i batch w)"
proof (cases "i < length (futures w) \<and> \<not> fut_ready (futures w ! i)")
  case False
  with assms show ?thesis by (auto simp: server_reply_def)
next
  case True
  let ?w1 = "w\<lparr>futures := (futures w)[i := (futures w ! i)\<lparr>fut_ready := True, fut_value := batch\<rparr>]\<rparr>"
  from assms have ok: "mirror_ok w" and rt: "requests_tracked w" by (simp_all add: poll_invariant_def)
  have run: "server_reply i batch w = ?w1" using True by (simp add: server_reply_def)
  have req: "\<And>j. j < length (futures w) \<Longrightarrow> request (futures ?w1 ! j) = request (futures w ! j)"
    using True by (simp add: nth_list_update)
  have rdy: "\<And>j. j < length (futures w) \<Longrightarrow> \<not> fut_ready (futures ?w1 ! j) \<Longrightarrow> \<not> fut_ready (futures w ! j)"
    using True by (simp add: nth_list_update split: if_splits)
  have mk: "\<And>r a. marker_ok r w a \<Longrightarrow> marker_ok r ?w1 a"
  proof -
    fix r a assume "marker_ok r w a"
    then show "marker_ok r ?w1 a"
    proof (cases rule: marker_cases)
      case 1
      then show ?thesis by (intro marker_ok_None) simp
    next
      case (2 k)
      then show ?thesis using True by (intro marker_ok_Async[of _ _ k]) (simp_all add: nth_list_update)
    qed
  qed
  from mirror_okD[OF ok] obtain u l cbs where
    r: "map_of (self_dict w) ''remote'' = Some RemoteRoot"
    and u: "map_of (self_dict w) ''uuid'' = Some u"
    and mq: "marker_ok get_changed_parameters_queue w ''_async_changed_parameters_queue''"
    and mr: "marker_ok register_remote_listeners w ''_async_listener_registering''"
    and l: "map_of (self_dict w) ''_listeners_pending_remote_registration'' = Some (StrList l)"
    and c: "map_of (self_dict w) ''_callbacks'' = Some (CallbackDict cbs)"
    by (elim exE conjE) (rule that)
  have ok1: "mirror_ok ?w1"
    by (rule mirror_okI[OF _ _ mk[OF mq] mk[OF mr]]) (simp_all add: r u l c)
  have rt1: "requests_tracked ?w1"
    unfolding requests_tracked_iff
  proof (intro allI impI)
    fix j assume j: "j < length (futures ?w1)" and nr: "\<not> fut_ready (futures ?w1 ! j)"
    from j have j0: "j < length (futures w)" by simp
    from rdy[OF j0 nr] rt j0 req[OF j0]
    show "(request (futures ?w1 ! j) = get_changed_parameters_queue \<longrightarrow>
            map_of (self_dict ?w1) ''_async_changed_parameters_queue'' = Some (Async j))
        \<and> (request (futures ?w1 ! j) = register_remote_listeners \<longrightarrow>
            map_of (self_dict ?w1) ''_async_listener_registering'' = Some (Async j))"
      unfolding requests_tracked_iff by simp
  qed
  from ok1 rt1 run show ?thesis by (simp add: poll_invariant_def)
qed

lemma update_caches_frame:
  "update_caches q w = (r, w') \<Longrightarrow>
   futures w' = futures w
   \<and> (\<forall>k. \<not> is_handle w k \<longrightarrow> map_of (self_dict w') k = map_of (self_dict w) k)
   \<and> (\<forall>k. is_handle w k \<longrightarrow> is_handle w' k)"
proof (induction q arbitrary: w)
  case Nil
  then show ?case by simp
next
  case (Cons x q)
  obtain n v where x: "x = (n, v)" by (cases x)
  show ?case
  proof (cases "\<exists>p. map_of (self_dict w) n = Some (Param p) \<and> use_cache p")
    case True
    then obtain p where p: "map_of (self_dict w) n = Some (Param p)" and uc: "use_cache p" by blast
    let ?w1 = "update_cache_at n p v w"
    from Cons.prems p uc have "update_caches q ?w1 = (r, w')"
      by (simp add: x getattr_self_def)
    from Cons.IH[OF this] have f: "futures w' = futures ?w1"
      and d: "\<forall>k. \<not> is_handle ?w1 k \<longrightarrow> map_of (self_dict w') k = map_of (self_dict ?w1) k"
      and hh: "\<forall>k. is_handle ?w1 k \<longrightarrow> is_handle w' k"
      by simp_all
    have hk: "\<forall>k. is_handle w k \<longrightarrow> is_handle w' k"
      using hh is_handle_update_cache_at by blast
    have f1: "futures ?w1 = futures w" by (simp add: update_cache_at_def)
    have "map_of (self_dict w') k = map_of (self_dict w) k" if nh: "\<not> is_handle w k" for k
    proof -
      from nh p have kn: "k \<noteq> n" by (auto simp: is_handle_iff)
      then have same: "map_of (self_dict ?w1) k = map_of (self_dict w) k"
        by (simp add: update_cache_at_def update_conv')
      with nh have "\<not> is_handle ?w1 k" by (simp add: is_handle_iff)
      with d same show ?thesis by simp
    qed
    with f f1 hk show ?thesis by simp
  next
    case False
    show ?thesis
    proof (cases "\<exists>p. map_of (self_dict w) n = Some (Param p)")
      case True
      then obtain p where p: "map_of (self_dict w) n = Some (Param p)" by blast
      with False have "\<not> use_cache p" by simp
      with Cons.prems p have "update_caches q w = (r, w')" by (simp add: x getattr_self_def)
      from Cons.IH[OF this] show ?thesis .
    next
      case False
      with Cons.prems have "w' = w"
        by (auto simp: x getattr_self_def split: option.splits obj.splits)
      then show ?thesis by simp
    qed
  qed
qed

lemma call_callbacks_frame:
  "call_callbacks q w = (r, w') \<Longrightarrow> futures w' = futures w \<and> self_dict w' = self_dict w"
proof (induction q arbitrary: w)
  case Nil
  then show ?case by simp
next
  case (Cons x q)
  obtain n v where x: "x = (n, v)" by (cases x)
  show ?case
  proof (cases "map_of (self_dict w) ''_callbacks''")
    case None
    with Cons.prems show ?thesis by (simp add: x getattr_self_def)
  next
    case (Some c)
    show ?thesis
    proof (cases c)
      case (CallbackDict d)
      let ?w1 = "w\<lparr>trace := trace w @ map (\<lambda>f. callback_called f v)
                      (case map_of d n of None \<Rightarrow> [] | Some fs \<Rightarrow> fs)\<rparr>"
      from Cons.prems Some CallbackDict have "call_callbacks q ?w1 = (r, w')"
        by (simp add: x getattr_self_def split: option.splits)
      from Cons.IH[OF this] show ?thesis by simp
    qed (use Cons.prems Some in \<open>simp_all add: x getattr_self_def\<close>)
  qed
qed

lemma poll_invariant_frame:
  assumes "poll_invariant w" and f: "futures w' = futures w"
    and d: "\<forall>k. \<not> is_handle w k \<longrightarrow> map_of (self_dict w') k = map_of (self_dict w) k"
    and h: "\<forall>k. is_handle w k \<longrightarrow> is_handle w' k"
  shows "poll_invariant w'"
proof -
  from assms(1) have ok: "mirror_ok w" and rt: "requests_tracked w" by (simp_all add: poll_invariant_def)
  from mirror_okD[OF ok] obtain u l cbs where
    r: "map_of (self_dict w) ''remote'' = Some RemoteRoot"
    and u: "map_of (self_dict w) ''uuid'' = Some u"
    and mq: "marker_ok get_changed_parameters_queue w ''_async_changed_parameters_queue''"
    and mr: "marker_ok register_remote_listeners w ''_async_listener_registering''"
    and l: "map_of (self_dict w) ''_listeners_pending_remote_registration'' = Some (StrList l)"
    and c: "map_of (self_dict w) ''_callbacks'' = Some (CallbackDict cbs)"
    by (elim exE conjE) (rule that)
  have q': "map_of (self_dict w') ''_async_changed_parameters_queue''
      = map_of (self_dict w) ''_async_changed_parameters_queue''"
    using d marker_not_param[OF mq] by (simp add: is_handle_iff)
  have r': "map_of (self_dict w') ''_async_listener_registering''
      = map_of (self_dict w) ''_async_listener_registering''"
    using d marker_not_param[OF mr] by (simp add: is_handle_iff)
  have f0: "futures w' = futures w @ []" using f by simp
  have a1: "map_of (self_dict w') ''remote'' = Some RemoteRoot"
    using d r by (simp add: is_handle_iff)
  have a2: "map_of (self_dict w') ''uuid'' \<noteq> None"
  proof (cases "is_handle w ''uuid''")
    case True
    with h have "is_handle w' ''uuid''" by blast
    then show ?thesis by (auto simp: is_handle_iff)
  next
    case False
    with d u show ?thesis by simp
  qed
  have a3: "map_of (self_dict w') ''_listeners_pending_remote_registration'' = Some (StrList l)"
    using d l by (simp add: is_handle_iff)
  have a4: "map_of (self_dict w') ''_callbacks'' = Some (CallbackDict cbs)"
    using d c by (simp add: is_handle_iff)
  have ok': "mirror_ok w'"
    by (rule mirror_okI[OF a1 a2 marker_ok_extend[OF mq q' f0] marker_ok_extend[OF mr r' f0] a3 a4])
  have rt': "requests_tracked w'"
    using rt unfolding requests_tracked_iff by (simp add: f q' r')
  from ok' rt' show ?thesis by (simp add: poll_invariant_def)
qed

lemma consume_changed_parameters_cases:
  assumes "mirror_ok w"
  obtains (idle) "consume_changed_parameters w = (Inr (), w)"
      "\<not> (\<exists>i. map_of (self_dict w) ''_async_changed_parameters_queue'' = Some (Async i)
             \<and> fut_ready (futures w ! i))"
  | (ready) i u where
      "map_of (self_dict w) ''_async_changed_parameters_queue'' = Some (Async i)"
      "i < length (futures w)" "fut_ready (futures w ! i)"
      "map_of (self_dict w) ''uuid'' = Some u"
      "consume_changed_parameters w
         = py_bind (update_caches (fut_value (futures w ! i)))
             (\<lambda>_. call_callbacks (fut_value (futures w ! i)))
             (w\<lparr>futures := futures w @ [\<lparr>request = get_changed_parameters_queue,
                                         fut_ready = False, fut_value = []\<rparr>],
                trace := trace w @ [exposed_get_changed_parameters_queue (length (futures w)) u],
                self_dict := AList.update ''_async_changed_parameters_queue''
                               (Async (length (futures w))) (self_dict w)\<rparr>)"
proof -
  from mirror_okD[OF assms] obtain u where
    r: "map_of (self_dict w) ''remote'' = Some RemoteRoot"
    and u: "map_of (self_dict w) ''uuid'' = Some u"
    and mq: "marker_ok get_changed_parameters_queue w ''_async_changed_parameters_queue''"
    by (elim exE conjE) (rule that)
  from mq show ?thesis
  proof (cases rule: marker_cases)
    case 1
    then have "consume_changed_parameters w = (Inr (), w)"
      by (simp add: consume_changed_parameters_def py_defs)
    with 1 show ?thesis by (intro idle) simp_all
  next
    case (2 i)
    show ?thesis
    proof (cases "fut_ready (futures w ! i)")
      case False
      with 2 have "consume_changed_parameters w = (Inr (), w)"
        by (simp add: consume_changed_parameters_def py_defs)
      with 2 False show ?thesis by (intro idle) simp_all
    next
      case True
      show ?thesis
        by (rule ready[OF 2(1,2) True u])
           (use 2 True r u in \<open>simp add: consume_changed_parameters_def py_defs\<close>)
    qed
  qed
qed

lemma iterations_frame:
  assumes "py_bind (update_caches q) (\<lambda>_. call_callbacks q) w = (r, w')"
  shows "futures w' = futures w
       \<and> (\<forall>k. \<not> is_handle w k \<longrightarrow> map_of (self_dict w') k = map_of (self_dict w) k)
       \<and> (\<forall>k. is_handle w k \<longrightarrow> is_handle w' k)"
proof (cases "update_caches q w")
  case (Pair r1 w1)
  note uf = update_caches_frame[OF Pair]
  show ?thesis
  proof (cases r1)
    case (Inl e)
    with assms Pair have "w' = w1" by (simp add: py_bind_def)
    with uf show ?thesis by simp
  next
    case (Inr x)
    with assms Pair have "call_callbacks q w1 = (r, w')" by (simp add: py_bind_def)
    from call_callbacks_frame[OF this] uf show ?thesis by (simp add: is_handle_def)
  qed
qed

lemma consume_changed_parameters_inv:
  assumes "poll_invariant w"
  shows "poll_invariant (snd (consume_changed_parameters w))"
proof -
  let ?Q = "''_async_changed_parameters_queue''"
  let ?R = "''_async_listener_registering''"
  from assms have ok: "mirror_ok w" and rt: "requests_tracked w" by (simp_all add: poll_invariant_def)
  from mirror_okD[OF ok] obtain u0 l cbs where
    r: "map_of (self_dict w) ''remote'' = Some RemoteRoot"
    and u0: "map_of (self_dict w) ''uuid'' = Some u0"
    and mq: "marker_ok get_changed_parameters_queue w ?Q"
    and mr: "marker_ok register_remote_listeners w ?R"
    and l: "map_of (self_dict w) ''_listeners_pending_remote_registration'' = Some (StrList l)"
    and c: "map_of (self_dict w) ''_callbacks'' = Some (CallbackDict cbs)"
    by (elim exE conjE) (rule that)
  from ok show ?thesis
  proof (cases rule: consume_changed_parameters_cases)
    case idle
    with assms show ?thesis by simp
  next
    case (ready i u)
    let ?f = "\<lparr>request = get_changed_parameters_queue, fut_ready = False, fut_value = []\<rparr>"
    let ?w1 = "w\<lparr>futures := futures w @ [?f],
                 trace := trace w @ [exposed_get_changed_parameters_queue (length (futures w)) u],
                 self_dict := AList.update ?Q (Async (length (futures w))) (self_dict w)\<rparr>"
    have mq1: "marker_ok get_changed_parameters_queue ?w1 ?Q"
      by (rule marker_ok_Async[of _ _ "length (futures w)"]) (simp_all add: update_conv')
    have mr1: "marker_ok register_remote_listeners ?w1 ?R"
      by (rule marker_ok_frame[OF mr, of _ "[?f]"]) (simp_all add: update_conv')
    have ok1: "mirror_ok ?w1"
      by (rule mirror_okI[OF _ _ mq1 mr1]) (simp_all add: update_conv' r u0 l c)
    have none: "\<forall>j<length (futures w). \<not> fut_ready (futures w ! j) \<longrightarrow>
        request (futures w ! j) \<noteq> get_changed_parameters_queue"
      using rt ready(1,3) unfolding requests_tracked_iff by auto
    have rt1: "requests_tracked ?w1"
      unfolding requests_tracked_iff
    proof (intro allI impI)
      fix j assume j: "j < length (futures ?w1)" and nr: "\<not> fut_ready (futures ?w1 ! j)"
      show "(request (futures ?w1 ! j) = get_changed_parameters_queue \<longrightarrow>
              map_of (self_dict ?w1) ?Q = Some (Async j))
          \<and> (request (futures ?w1 ! j) = register_remote_listeners \<longrightarrow>
              map_of (self_dict ?w1) ?R = Some (Async j))"
      proof (cases "j < length (futures w)")
        case True
        with nr have nr0: "\<not> fut_ready (futures w ! j)" by (simp add: nth_append)
        from none True nr0 have "request (futures w ! j) \<noteq> get_changed_parameters_queue" by blast
        moreover from rt True nr0 have "request (futures w ! j) = register_remote_listeners \<longrightarrow>
            map_of (self_dict w) ?R = Some (Async j)"
          unfolding requests_tracked_iff by blast
        ultimately show ?thesis using True by (simp add: nth_append update_conv')
      next
        case False
        with j have "j = length (futures w)" by simp
        then show ?thesis by (simp add: update_conv')
      qed
    qed
    from ok1 rt1 have i1: "poll_invariant ?w1" by (simp add: poll_invariant_def)
    obtain res w' where run: "consume_changed_parameters w = (res, w')"
      by (cases "consume_changed_parameters w")
    from iterations_frame[OF run[unfolded ready(5)]] poll_invariant_frame[OF i1]
    have "poll_invariant w'" by blast
    with run show ?thesis by simp
  qed
qed

lemma py_bind_inv:
  assumes "poll_invariant (snd (m w))" and "\<And>x w'. poll_invariant w' \<Longrightarrow> poll_invariant (snd (f x w'))"
  shows "poll_invariant (snd (py_bind m f w))"
proof (cases "m w")
  case (Pair r w1)
  with assms(1) have i1: "poll_invariant w1" by simp
  show ?thesis
  proof (cases r)
    case (Inl e)
    with Pair i1 show ?thesis by (simp add: py_bind_def)
  next
    case (Inr x)
    with Pair assms(2)[OF i1, of x] show ?thesis by (simp add: py_bind_def)
  qed
qed

lemma check_for_changed_parameters_inv:
  assumes "poll_invariant w"
  shows "poll_invariant (snd (check_for_changed_parameters w))"
  unfolding check_for_changed_parameters_def
  by (intro py_bind_inv request_changed_parameters_inv register_pending_listeners_inv
      consume_changed_parameters_inv finish_listener_registering_inv assms)

lemma do_step_inv: "poll_invariant w \<Longrightarrow> poll_invariant (do_step s w)"
  by (cases s)
     (simp_all add: request_changed_parameters_inv register_pending_listeners_inv
        consume_changed_parameters_inv finish_listener_registering_inv
        check_for_changed_parameters_inv server_reply_inv)

lemma run_steps_inv: "poll_invariant w \<Longrightarrow> poll_invariant (run_steps ss w)"
  unfolding run_steps_def
  by (induction ss arbitrary: w) (simp_all add: do_step_inv)

lemma issued_request:
  assumes ok: "mirror_ok w"
  shows "issued w (snd (request_changed_parameters w))
     = (if fetch_marker w = Some (Val PyNone) then [get_changed_parameters_queue] else [])"
proof -
  from mirror_okD[OF ok] obtain u where
    r: "map_of (self_dict w) ''remote'' = Some RemoteRoot"
    and u: "map_of (self_dict w) ''uuid'' = Some u"
    and mq: "marker_ok get_changed_parameters_queue w ''_async_changed_parameters_queue''"
    by (elim exE conjE) (rule that)
  from mq show ?thesis
  proof (cases rule: marker_cases)
    case 1
    with r u show ?thesis
      by (simp add: request_changed_parameters_def py_defs issued_def fetch_marker_def)
  next
    case (2 i)
    then show ?thesis
      by (simp add: request_changed_parameters_def py_defs issued_def fetch_marker_def)
  qed
qed

lemma issued_register:
  assumes ok: "mirror_ok w"
  shows "issued w (snd (register_pending_listeners w))
     = (if registering_marker w = Some (Val PyNone) \<and> pending_names w \<noteq> []
        then [register_remote_listeners] else [])"
proof -
  from mirror_okD[OF ok] obtain u l where
    r: "map_of (self_dict w) ''remote'' = Some RemoteRoot"
    and u: "map_of (self_dict w) ''uuid'' = Some u"
    and mr: "marker_ok register_remote_listeners w ''_async_listener_registering''"
    and l: "map_of (self_dict w) ''_listeners_pending_remote_registration'' = Some (StrList l)"
    by (elim exE conjE) (rule that)
  from mr show ?thesis
  proof (cases rule: marker_cases)
    case 1
    with r u l show ?thesis
      by (simp add: register_pending_listeners_def py_defs copy_list_def pending_clear_def
          update_conv' issued_def registering_marker_def pending_names_def)
  next
    case (2 i)
    then show ?thesis
      by (simp add: register_pending_listeners_def py_defs issued_def registering_marker_def)
  qed
qed

lemma issued_consume:
  assumes ok: "mirror_ok w"
  shows "issued w (snd (consume_changed_parameters w))
     = (if fetch_is_ready w then [get_changed_parameters_queue] else [])"
  using ok
proof (cases rule: consume_changed_parameters_cases)
  case idle
  from mirror_okD(3)[OF ok] have "\<not> fetch_is_ready w"
  proof (cases rule: marker_cases)
    case 1
    then show ?thesis by (simp add: fetch_is_ready_def fetch_marker_def)
  next
    case (2 i)
    with idle(2) show ?thesis by (simp add: fetch_is_ready_def fetch_marker_def)
  qed
  with idle(1) show ?thesis by (simp add: issued_def)
next
  case (ready i u)
  have rd: "fetch_is_ready w" using ready(1,2,3) by (simp add: fetch_is_ready_def fetch_marker_def)
  obtain res w' where run: "consume_changed_parameters w = (res, w')"
    by (cases "consume_changed_parameters w")
  from iterations_frame[OF run[unfolded ready(5)]]
  have "futures w' = futures w @ [\<lparr>request = get_changed_parameters_queue, fut_ready = False, fut_value = []\<rparr>]"
    by simp
  with run rd show ?thesis by (simp add: issued_def)
qed

lemma issued_finish:
  assumes ok: "mirror_ok w"
  shows "issued w (snd (finish_listener_registering w)) = []"
proof -
  from mirror_okD(4)[OF ok] show ?thesis
  proof (cases rule: marker_cases)
    case 1
    then show ?thesis by (simp add: finish_listener_registering_def py_defs issued_def)
  next
    case (2 i)
    then show ?thesis by (simp add: finish_listener_registering_def py_defs issued_def)
  qed
qed

text \<open>
  Claim C2. Start from a mirror that is in order and whose unanswered requests are the ones its
  markers name, as \<open>__init__\<close> leaves it (lemma \<open>init_poll_invariant\<close> below), and let any
  sequence of polls, parts of polls and answers of the server happen. At every point at most
  one fetch and at most one registration are unanswered. At every such point the first part of
  a poll issues a fetch exactly when the fetch marker is \<open>None\<close>, the third part issues one
  exactly when the fetch that the marker names has been answered (it consumes the answer), the
  second part issues a registration exactly when the registration marker is \<open>None\<close> and the
  pending list is not empty, and the last part issues nothing.
\<close>

theorem at_most_one_outstanding_request:
  assumes "mirror_ok w" and "requests_tracked w" and "w' = run_steps ss w"
  shows "length (outstanding get_changed_parameters_queue w') \<le> 1
       \<and> length (outstanding register_remote_listeners w') \<le> 1
       \<and> issued w' (do_step request_step w')
           = (if fetch_marker w' = Some (Val PyNone) then [get_changed_parameters_queue] else [])
       \<and> issued w' (do_step consume_step w')
           = (if fetch_is_ready w' then [get_changed_parameters_queue] else [])
       \<and> issued w' (do_step register_step w')
           = (if registering_marker w' = Some (Val PyNone) \<and> pending_names w' \<noteq> []
              then [register_remote_listeners] else [])
       \<and> issued w' (do_step finish_step w') = []"
proof -
  from assms(1,2) have "poll_invariant w" by (simp add: poll_invariant_def)
  then have "poll_invariant w'" unfolding assms(3) by (rule run_steps_inv)
  then have ok: "mirror_ok w'" and rt: "requests_tracked w'" by (simp_all add: poll_invariant_def)
  from rt have t1: "\<forall>j\<in>set (outstanding get_changed_parameters_queue w').
      map_of (self_dict w') ''_async_changed_parameters_queue'' = Some (Async j)"
    and t2: "\<forall>j\<in>set (outstanding register_remote_listeners w').
      map_of (self_dict w') ''_async_listener_registering'' = Some (Async j)"
    unfolding requests_tracked_def by blast+
  from outstanding_le_one[OF t1] outstanding_le_one[OF t2]
  have "length (outstanding get_changed_parameters_queue w') \<le> 1"
    and "length (outstanding register_remote_listeners w') \<le> 1" .
  with issued_request[OF ok] issued_consume[OF ok] issued_register[OF ok] issued_finish[OF ok]
  show ?thesis by simp
qed

lemma example_listening_ok: "mirror_ok example_listening"
  by (simp add: mirror_ok_def marker_ok_def example_listening_def)

lemma example_listening_tracked: "requests_tracked example_listening"
  by (simp add: requests_tracked_def outstanding_def example_listening_def)

text \<open>
  An instance: two polls with answers of the server in between and after; four requests have
  been issued in all, and one fetch is unanswered at the end.
\<close>

theorem at_most_one_outstanding_request_witness:
  "mirror_ok example_listening \<and> requests_tracked example_listening
   \<and> map request (futures (run_steps example_steps example_listening))
       = [get_changed_parameters_queue, register_remote_listeners, get_changed_parameters_queue,
          get_changed_parameters_queue]
   \<and> outstanding get_changed_parameters_queue (run_steps example_steps example_listening) = [3]
   \<and> outstanding register_remote_listeners (run_steps example_steps example_listening) = []
   \<and> length (outstanding get_changed_parameters_queue (run_steps example_steps example_listening)) \<le> 1
   \<and> length (outstanding register_remote_listeners (run_steps example_steps example_listening)) \<le> 1
   \<and> init (PyStr ''u1'') True example_inventory [(''speed'', PyInt 10), (''status'', PyStr ''idle'')]
       = (Inr (), example_mirror)
   \<and> mirror_ok example_mirror \<and> requests_tracked example_mirror
   \<and> outstanding get_changed_parameters_queue
         (run_steps [poll_step, reply_step 0 example_batch, poll_step, poll_step] example_mirror) = [1]
   \<and> length (outstanding get_changed_parameters_queue
         (run_steps [poll_step, reply_step 0 example_batch, poll_step, poll_step] example_mirror)) \<le> 1"
proof -
  have run: "futures (run_steps example_steps example_listening)
     = [\<lparr>request = get_changed_parameters_queue, fut_ready = True, fut_value = example_batch\<rparr>,
        \<lparr>request = register_remote_listeners, fut_ready = True, fut_value = []\<rparr>,
        \<lparr>request = get_changed_parameters_queue, fut_ready = True,
          fut_value = [(''status'', PyStr ''idle'')]\<rparr>,
        \<lparr>request = get_changed_parameters_queue, fut_ready = False, fut_value = []\<rparr>]"
    by (simp add: example_steps_def run_steps_def check_for_changed_parameters_def
        request_changed_parameters_def register_pending_listeners_def
        consume_changed_parameters_def finish_listener_registering_def copy_list_def
        pending_clear_def py_defs server_reply_def example_listening_def example_batch_def
        example_status_def update_cache_at_def update_cache_def)
  have ok: "mirror_ok example_mirror"
    by (simp add: mirror_ok_def marker_ok_def example_mirror_def)
  have rt: "requests_tracked example_mirror"
    by (simp add: requests_tracked_def outstanding_def example_mirror_def)
  have run2: "futures (run_steps [poll_step, reply_step 0 example_batch, poll_step, poll_step]
                 example_mirror)
     = [\<lparr>request = get_changed_parameters_queue, fut_ready = True, fut_value = example_batch\<rparr>,
        \<lparr>request = get_changed_parameters_queue, fut_ready = False, fut_value = []\<rparr>]"
    by (simp add: run_steps_def check_for_changed_parameters_def
        request_changed_parameters_def register_pending_listeners_def
        consume_changed_parameters_def finish_listener_registering_def copy_list_def
        pending_clear_def py_defs server_reply_def example_mirror_def example_batch_def
        example_status_def update_cache_at_def update_cache_def)
  from at_most_one_outstanding_request [OF example_listening_ok example_listening_tracked refl,
      of example_steps]
  have b1: "length (outstanding get_changed_parameters_queue (run_steps example_steps example_listening)) \<le> 1
     \<and> length (outstanding register_remote_listeners (run_steps example_steps example_listening)) \<le> 1"
    by simp
  from at_most_one_outstanding_request [OF ok rt refl,
      of "[poll_step, reply_step 0 example_batch, poll_step, poll_step]"]
  have b2: "length (outstanding get_changed_parameters_queue
         (run_steps [poll_step, reply_step 0 example_batch, poll_step, poll_step] example_mirror)) \<le> 1"
    by simp
  from b1 b2 example_listening_ok example_listening_tracked ok rt run run2 init_example
  show ?thesis
    by (simp add: outstanding_def)
qed

lemma init_parameters_frame:
  "init_parameters uc ps w = (r, w') \<Longrightarrow>
   futures w' = futures w
   \<and> (\<forall>k. k \<notin> fst ` set ps \<longrightarrow> map_of (self_dict w') k = map_of (self_dict w) k)"
proof (induction ps arbitrary: w)
  case Nil
  then show ?case by simp
next
  case (Cons x ps)
  obtain n v cc rs lg where x: "x = (n, v, cc, rs, lg)" by (cases x)
  let ?p = "\<lparr>name = n, use_cache = (uc \<and> cc), restorable = rs, loggable = lg, cached_value = None\<rparr>"
  show ?case
  proof (cases "attributes_locked w \<and> \<not> startswith n ''_''")
    case True
    with Cons.prems have "w' = w" by (simp add: x setattr_def)
    then show ?thesis by simp
  next
    case False
    let ?w1 = "w\<lparr>self_dict := AList.update n (Param ?p) (self_dict w)\<rparr>"
    let ?w2 = "if uc \<and> cc then update_cache_at n ?p v ?w1 else ?w1"
    have "init_parameters uc ps ?w2 = (r, w')"
      using Cons.prems False by (cases uc; cases cc) (simp_all add: x setattr_def)
    from Cons.IH[OF this] have f: "futures w' = futures ?w2"
      and d: "\<forall>k. k \<notin> fst ` set ps \<longrightarrow> map_of (self_dict w') k = map_of (self_dict ?w2) k"
      by simp_all
    have f2: "futures ?w2 = futures w" by (simp add: update_cache_at_def)
    have d2: "\<And>k. k \<noteq> n \<Longrightarrow> map_of (self_dict ?w2) k = map_of (self_dict w) k"
      by (simp add: update_cache_at_def update_conv')
    from f f2 d d2 show ?thesis by (simp add: x)
  qed
qed

lemma poll_invariant_initial:
  assumes "futures w = []"
    and "map_of (self_dict w) ''remote'' = Some RemoteRoot"
    and "map_of (self_dict w) ''uuid'' = Some u"
    and "map_of (self_dict w) ''_async_changed_parameters_queue'' = Some (Val PyNone)"
    and "map_of (self_dict w) ''_async_listener_registering'' = Some (Val PyNone)"
    and "map_of (self_dict w) ''_listeners_pending_remote_registration'' = Some (StrList [])"
    and "map_of (self_dict w) ''_callbacks'' = Some (CallbackDict [])"
  shows "poll_invariant w"
proof -
  have "mirror_ok w"
    by (rule mirror_okI[OF assms(2) _ marker_ok_None[OF assms(4)] marker_ok_None[OF assms(5)]
          assms(6,7)]) (simp add: assms(3))
  moreover have "requests_tracked w"
    unfolding requests_tracked_iff by (simp add: assms(1))
  ultimately show ?thesis by (simp add: poll_invariant_def)
qed

text \<open>
  \<open>__init__\<close> establishes the invariant, whatever the inventory, as long as no parameter has
  the name of one of the mirror's own attributes.
\<close>

lemma init_poll_invariant:
  assumes names: "\<forall>n\<in>fst ` set all_parameters. n \<notin> set internal_names"
  shows "poll_invariant (snd (init uuid uc all_parameters server_values))"
proof -
  let ?d0 = "[(''remote'', RemoteRoot), (''uuid'', Val uuid),
              (''_async_changed_parameters_queue'', Val PyNone),
              (''_async_listener_registering'', Val PyNone),
              (''_listeners_pending_remote_registration'', StrList []),
              (''_callbacks'', CallbackDict [])]"
  let ?w0 = "\<lparr>self_dict = ?d0, futures = [], remote_values = server_values,
              trace = [exposed_init_parameter_sync (Val uuid)]\<rparr>"
  let ?rest = "py_bind (init_parameters uc all_parameters) (\<lambda>_.
               py_bind (setattr ''_attributes_locked'' (Val (PyBool True))) (\<lambda>_.
               check_for_changed_parameters))"
  have start: "init uuid uc all_parameters server_values = ?rest ?w0"
    by (simp add: init_def py_defs)
  obtain r1 w1 where ip: "init_parameters uc all_parameters ?w0 = (r1, w1)"
    by (cases "init_parameters uc all_parameters ?w0")
  from init_parameters_frame[OF ip] have f1: "futures w1 = []"
    and d1: "\<forall>k. k \<notin> fst ` set all_parameters \<longrightarrow> map_of (self_dict w1) k = map_of ?d0 k"
    by simp_all
  have keep: "\<And>k. k \<in> set internal_names \<Longrightarrow> map_of (self_dict w1) k = map_of ?d0 k"
    using d1 names by blast
  have i1: "poll_invariant w1"
    by (rule poll_invariant_initial[OF f1, of "Val uuid"]) (simp_all add: keep internal_names_def)
  show ?thesis
  proof (cases r1)
    case (Inl e)
    with ip start i1 show ?thesis by (simp add: py_bind_def)
  next
    case (Inr x)
    let ?w2 = "w1\<lparr>self_dict := AList.update ''_attributes_locked'' (Val (PyBool True)) (self_dict w1)\<rparr>"
    have s2: "setattr ''_attributes_locked'' (Val (PyBool True)) w1 = (Inr (), ?w2)"
      by (simp add: setattr_def)
    have i2: "poll_invariant ?w2"
      by (rule poll_invariant_initial[of _ "Val uuid"]) (simp_all add: f1 update_conv' keep internal_names_def)
    from check_for_changed_parameters_inv[OF i2] ip Inr start s2 show ?thesis
      by (simp add: py_bind_def)
  qed
qed

end
